theory Spec2Isabelle
  imports Complex_Main
begin

section \<open>pg\_activity: the data layer (pgactivity/data.py)\<close>

text \<open>
  A shallow embedding of \<^verbatim>\<open>pgactivity/data.py\<close>. Python exceptions are values of
  \<open>py_exception\<close>; a function that may raise returns \<open>py_exception + 'a\<close> with
  \<open>Inl\<close> for the exception. The database client (psycopg3) is outside the
  repository: a connection is modelled by the rows the server answers over it.
\<close>

subsection \<open>Exceptions\<close>

text \<open>
  The exception classes the module names. \<open>InvalidPassword\<close> is a subclass of
  \<open>OperationalError\<close> (the caller-facing wrapper tests \<^verbatim>\<open>isinstance(err, InvalidPassword)\<close>
  inside \<^verbatim>\<open>except OperationalError\<close>); \<open>Error\<close> stands for every other psycopg3 error,
  the base class that \<^verbatim>\<open>Data.pg_connect\<close> catches. The string is \<^verbatim>\<open>str(err)\<close>.
\<close>

datatype py_exception =
    InterfaceError string
  | OperationalError string
  | InvalidPassword string
  | Error string
  | ZeroDivisionError
  | IndexError
  | UnboundLocalError
  | TypeError
  | ValueError
  | Exception string
  | SystemExit string

fun is_InterfaceError :: "py_exception \<Rightarrow> bool" where
  "is_InterfaceError (InterfaceError m) = True"
| "is_InterfaceError e = False"

fun is_OperationalError :: "py_exception \<Rightarrow> bool" where
  "is_OperationalError (OperationalError m) = True"
| "is_OperationalError (InvalidPassword m) = True"
| "is_OperationalError e = False"

fun is_InvalidPassword :: "py_exception \<Rightarrow> bool" where
  "is_InvalidPassword (InvalidPassword m) = True"
| "is_InvalidPassword e = False"

subsection \<open>Regular expressions\<close>

text \<open>
  The two patterns of the module are built from literals, \<^verbatim>\<open>[0-9]+\<close>, alternation,
  concatenation, a greedy optional part and capture groups. \<open>re_run\<close> is Python's
  backtracking matcher for this fragment: from a text and the groups captured so far it
  lists, in the order the matcher tries them, every way to match a prefix, each as the
  groups captured and the text left over. A greedy \<^verbatim>\<open>[0-9]+\<close> tries the longest run of
  digits first and gives digits back one at a time; \<^verbatim>\<open>a|b\<close> tries \<open>a\<close> first; a greedy
  optional part is tried before it is skipped. Captures are kept newest first.
\<close>

datatype regex =
    Lit string
  | Digits
  | Alt regex regex
  | Seq regex regex
  | Opt regex
  | Group nat regex

definition is_digit :: "char \<Rightarrow> bool" where
  "is_digit c = (c \<in> set ''0123456789'')"

type_synonym captures = "(nat \<times> string) list"

fun re_run :: "regex \<Rightarrow> string \<Rightarrow> captures \<Rightarrow> (captures \<times> string) list" where
  "re_run (Lit s) t g = (if take (length s) t = s then [(g, drop (length s) t)] else [])"
| "re_run Digits t g =
     map (\<lambda>n. (g, drop n t)) (rev [1 ..< Suc (length (takeWhile is_digit t))])"
| "re_run (Alt a b) t g = re_run a t g @ re_run b t g"
| "re_run (Seq a b) t g = concat (map (\<lambda>(g', t'). re_run b t' g') (re_run a t g))"
| "re_run (Opt a) t g = re_run a t g @ [(g, t)]"
| "re_run (Group n a) t g =
     map (\<lambda>(g', t'). ((n, take (length t - length t') t) # g', t')) (re_run a t g)"

text \<open>
  \<^verbatim>\<open>re.match(pattern, text)\<close>: the first way to match at the start of the text, or
  \<^verbatim>\<open>None\<close>. The match object is the matched prefix (\<^verbatim>\<open>group(0)\<close>) and the captures;
  \<^verbatim>\<open>group(n)\<close> is \<^verbatim>\<open>None\<close> for a group that took no part in the match.
\<close>

definition re_match :: "regex \<Rightarrow> string \<Rightarrow> (string \<times> captures) option" where
  "re_match r t =
     (case re_run r t [] of
        [] \<Rightarrow> None
      | (g, rest) # _ \<Rightarrow> Some (take (length t - length rest) t, g))"

definition group0 :: "string \<times> captures \<Rightarrow> string" where
  "group0 res = fst res"

definition group :: "string \<times> captures \<Rightarrow> nat \<Rightarrow> string option" where
  "group res n = map_of (snd res) n"

subsection \<open>Version strings\<close>

text \<open>
  \<^verbatim>\<open>int(s)\<close> on a string of decimal digits; the module applies it to nothing else.
  Using a group that is \<^verbatim>\<open>None\<close> as a string raises \<^verbatim>\<open>TypeError\<close>.
\<close>

definition digit_val :: "char \<Rightarrow> int" where
  "digit_val c = int (of_char c) - 48"

definition py_int_str :: "string \<Rightarrow> py_exception + int" where
  "py_int_str s =
     (if s \<noteq> [] \<and> list_all is_digit s
      then Inr (foldl (\<lambda>a c. 10 * a + digit_val c) 0 s)
      else Inl ValueError)"

definition group_str :: "string \<times> captures \<Rightarrow> nat \<Rightarrow> py_exception + string" where
  "group_str res n = (case group res n of Some s \<Rightarrow> Inr s | None \<Rightarrow> Inl TypeError)"

definition py_bind :: "py_exception + 'a \<Rightarrow> ('a \<Rightarrow> py_exception + 'b) \<Rightarrow> py_exception + 'b" where
  "py_bind m f = (case m of Inl e \<Rightarrow> Inl e | Inr x \<Rightarrow> f x)"

text \<open>
  \<^verbatim>\<open>^(PostgreSQL|EnterpriseDB) ([0-9]+)\.([0-9]+)(?:\.([0-9]+))?\<close> and
  \<^verbatim>\<open>^(PostgreSQL|EnterpriseDB) ([0-9]+)(?:\.([0-9]+))?(devel|beta[0-9]+|rc[0-9]+)\<close>.
  The anchor \<^verbatim>\<open>^\<close> holds where \<^verbatim>\<open>re.match\<close> starts.
\<close>

definition product_re :: regex where
  "product_re = Group 1 (Alt (Lit ''PostgreSQL'') (Lit ''EnterpriseDB''))"

definition stable_re :: regex where
  "stable_re =
     Seq product_re (Seq (Lit '' '') (Seq (Group 2 Digits) (Seq (Lit ''.'')
       (Seq (Group 3 Digits) (Opt (Seq (Lit ''.'') (Group 4 Digits)))))))"

definition suffix_re :: regex where
  "suffix_re =
     Group 4 (Alt (Lit ''devel'') (Alt (Seq (Lit ''beta'') Digits) (Seq (Lit ''rc'') Digits)))"

definition dev_re :: regex where
  "dev_re =
     Seq product_re (Seq (Lit '' '') (Seq (Group 2 Digits)
       (Seq (Opt (Seq (Lit ''.'') (Group 3 Digits))) suffix_re)))"

definition pg_get_num_dev_version :: "string \<Rightarrow> py_exception + string \<times> int" where
  "pg_get_num_dev_version text_version =
     (case re_match dev_re text_version of
        None \<Rightarrow> Inl (Exception (''Undefined PostgreSQL version: '' @ text_version))
      | Some res \<Rightarrow>
          py_bind (group_str res 2) (\<lambda>rmatch.
          py_bind (case group res 3 of
                     Some g3 \<Rightarrow>
                       py_bind (py_int_str g3) (\<lambda>n3.
                         Inr ((if n3 < 10 then rmatch @ ''0'' else rmatch) @ g3))
                   | None \<Rightarrow> Inr (rmatch @ ''00'')) (\<lambda>rmatch.
          py_bind (py_int_str (rmatch @ ''00'')) (\<lambda>pg_num_version.
          Inr (group0 res, pg_num_version)))))"

definition pg_get_num_version :: "string \<Rightarrow> py_exception + string \<times> int" where
  "pg_get_num_version text_version =
     (case re_match stable_re text_version of
        Some res \<Rightarrow>
          py_bind (group_str res 2) (\<lambda>rmatch.
          py_bind (group_str res 3) (\<lambda>g3.
          py_bind (py_int_str g3) (\<lambda>n3.
          py_bind (Inr ((if n3 < 10 then rmatch @ ''0'' else rmatch) @ g3)) (\<lambda>rmatch.
          py_bind (case group res 4 of
                     Some g4 \<Rightarrow>
                       py_bind (py_int_str g4) (\<lambda>n4.
                         Inr ((if n4 < 10 then rmatch @ ''0'' else rmatch) @ g4))
                   | None \<Rightarrow> Inr (rmatch @ ''00'')) (\<lambda>rmatch.
          py_bind (py_int_str rmatch) (\<lambda>pg_num_version.
          Inr (group0 res, pg_num_version)))))))
      | None \<Rightarrow> pg_get_num_dev_version text_version)"

subsection \<open>The two patterns read deterministically\<close>

text \<open>
  Proof devices. In both patterns a run of digits is always followed by something that
  cannot start with a digit, so the first way the backtracking matcher finds is the one
  that takes every run of digits whole. These functions compute that match directly
  (captures and text left over, from the text after the product name and the space);
  the lemmas \<open>stable_first\<close> and \<open>dev_first\<close> below prove that \<open>re_run\<close> finds exactly
  it. \<open>dec\<close> is the number a string of digits denotes.
\<close>

definition first_of :: "'a list \<Rightarrow> 'a option" where
  "first_of xs = (case xs of [] \<Rightarrow> None | x # _ \<Rightarrow> Some x)"

definition patch_part :: "string \<Rightarrow> captures \<Rightarrow> captures \<times> string" where
  "patch_part t g =
     (if take 1 t = ''.'' \<and> takeWhile is_digit (drop 1 t) \<noteq> []
      then ((4, takeWhile is_digit (drop 1 t)) # g, dropWhile is_digit (drop 1 t))
      else (g, t))"

definition stable_tail :: "string \<Rightarrow> captures \<Rightarrow> (captures \<times> string) option" where
  "stable_tail t g =
     (let major = takeWhile is_digit t; t2 = dropWhile is_digit t;
          minor = takeWhile is_digit (drop 1 t2); t3 = dropWhile is_digit (drop 1 t2)
      in if major \<noteq> [] \<and> take 1 t2 = ''.'' \<and> minor \<noteq> []
         then Some (patch_part t3 ((3, minor) # (2, major) # g))
         else None)"

definition suffix_part :: "string \<Rightarrow> captures \<Rightarrow> (captures \<times> string) option" where
  "suffix_part t g =
     (if take 5 t = ''devel'' then Some ((4, ''devel'') # g, drop 5 t)
      else if take 4 t = ''beta'' \<and> takeWhile is_digit (drop 4 t) \<noteq> []
      then Some ((4, ''beta'' @ takeWhile is_digit (drop 4 t)) # g, dropWhile is_digit (drop 4 t))
      else if take 2 t = ''rc'' \<and> takeWhile is_digit (drop 2 t) \<noteq> []
      then Some ((4, ''rc'' @ takeWhile is_digit (drop 2 t)) # g, dropWhile is_digit (drop 2 t))
      else None)"

definition dev_tail :: "string \<Rightarrow> captures \<Rightarrow> (captures \<times> string) option" where
  "dev_tail t g =
     (let major = takeWhile is_digit t; t2 = dropWhile is_digit t;
          minor = takeWhile is_digit (drop 1 t2); t3 = dropWhile is_digit (drop 1 t2)
      in if major = [] then None
         else if take 1 t2 = ''.'' \<and> minor \<noteq> []
         then suffix_part t3 ((3, minor) # (2, major) # g)
         else suffix_part t2 ((2, major) # g))"

definition with_product :: "(string \<Rightarrow> captures \<Rightarrow> 'a option) \<Rightarrow> string \<Rightarrow> 'a option" where
  "with_product k t =
     (if take 11 t = ''PostgreSQL '' then k (drop 11 t) [(1, ''PostgreSQL'')]
      else if take 13 t = ''EnterpriseDB '' then k (drop 13 t) [(1, ''EnterpriseDB'')]
      else None)"

definition dec :: "string \<Rightarrow> int" where
  "dec s = foldl (\<lambda>a c. 10 * a + digit_val c) 0 s"

subsection \<open>What it means to match a pattern\<close>

text \<open>
  The specification's notion, independent of any matcher: the language of a pattern, and
  a text matches when one of its prefixes is in that language (the patterns are anchored
  at the start only).
\<close>

fun lang :: "regex \<Rightarrow> string set" where
  "lang (Lit s) = {s}"
| "lang Digits = {ds. ds \<noteq> [] \<and> list_all is_digit ds}"
| "lang (Alt a b) = lang a \<union> lang b"
| "lang (Seq a b) = {u @ v | u v. u \<in> lang a \<and> v \<in> lang b}"
| "lang (Opt a) = insert [] (lang a)"
| "lang (Group n a) = lang a"

definition matches_pattern :: "regex \<Rightarrow> string \<Rightarrow> bool" where
  "matches_pattern r t = (\<exists>p s. t = p @ s \<and> p \<in> lang r)"

subsection \<open>Version strings as the specification writes them\<close>

text \<open>
  The shape of the texts the encoding theorem speaks about. A field is written with two
  digits at most and no leading zero (minor and patch numbers below 100 in their usual
  decimal form); a number ends where the next character is not a digit; no patch follows
  when the text does not go on with a dot and a digit; a development suffix is
  \<^verbatim>\<open>devel\<close>, or \<^verbatim>\<open>beta\<close> or \<^verbatim>\<open>rc\<close> with a number that ends there.
\<close>

definition two_digit_field :: "string \<Rightarrow> bool" where
  "two_digit_field s =
     (list_all is_digit s \<and> (length s = 1 \<or> (length s = 2 \<and> hd s \<noteq> CHR ''0'')))"

definition no_digit_ahead :: "string \<Rightarrow> bool" where
  "no_digit_ahead rest = (rest = [] \<or> \<not> is_digit (hd rest))"

definition no_patch_ahead :: "string \<Rightarrow> bool" where
  "no_patch_ahead rest =
     (no_digit_ahead rest \<and>
      \<not> (take 1 rest = ''.'' \<and> drop 1 rest \<noteq> [] \<and> is_digit (hd (drop 1 rest))))"

definition dev_suffix :: "string \<Rightarrow> string \<Rightarrow> bool" where
  "dev_suffix s rest =
     (s = ''devel'' \<or>
      ((take 4 s = ''beta'' \<and> drop 4 s \<noteq> [] \<and> list_all is_digit (drop 4 s)) \<or>
       (take 2 s = ''rc'' \<and> drop 2 s \<noteq> [] \<and> list_all is_digit (drop 2 s))) \<and>
      no_digit_ahead rest)"

subsection \<open>Connections and sessions\<close>

text \<open>
  \<open>prev_total_size\<close> is the string \<^verbatim>\<open>"0"\<close> or the previous integer size.
\<close>

datatype py_value = PyStr string | PyInt int

record db_info_params =
  skip_db_size :: bool
  prev_total_size :: py_value
  using_rds :: bool

text \<open>
  What the code reads from a live connection: the single row each catalog query
  returns, and \<^verbatim>\<open>pg_conn.info.get_parameters()\<close>. Timestamps and durations are Python
  floats.
\<close>

record Connection =
  get_version :: string
  get_parameters :: "(string \<times> string) list"
  get_pga_inet_addresses :: "string option \<times> string option"
  get_db_info :: "db_info_params \<Rightarrow> real \<times> int \<times> int \<times> int"

record Data =
  pg_conn :: Connection
  pg_version :: string
  pg_num_version :: int
  min_duration :: real
  dsn_parameters :: "(string \<times> string) list"

subsection \<open>Duration column\<close>

text \<open>Python list indexing: a negative index counts from the end, out of range raises.\<close>

definition py_getitem :: "'a list \<Rightarrow> int \<Rightarrow> py_exception + 'a" where
  "py_getitem xs i =
     (if 0 \<le> i \<and> i < int (length xs) then Inr (xs ! nat i)
      else if i < 0 \<and> - int (length xs) \<le> i then Inr (xs ! nat (int (length xs) + i))
      else Inl IndexError)"

definition get_duration_column :: "int \<Rightarrow> py_exception + string" where
  "get_duration_column duration_mode =
     (let duration_mode = (if duration_mode \<notin> set [1, 2, 3] then 1 else duration_mode)
      in py_getitem [''query_start'', ''xact_start'', ''backend_start''] (duration_mode - 1))"

subsection \<open>Activity query selection\<close>

text \<open>
  The version dispatch of \<^verbatim>\<open>Data.pg_get_activities\<close>: the name handed to
  \<^verbatim>\<open>queries.get\<close>. The chain ends in an \<^verbatim>\<open>elif\<close>; were no branch taken, the
  later use of \<^verbatim>\<open>query\<close> would raise \<^verbatim>\<open>UnboundLocalError\<close>.
\<close>

definition pg_get_activities_query :: "Data \<Rightarrow> py_exception + string" where
  "pg_get_activities_query self =
     (if pg_num_version self \<ge> 110000 then Inr ''get_pg_activity_post_110000''
      else if pg_num_version self \<ge> 100000 then Inr ''get_pg_activity_post_100000''
      else if pg_num_version self \<ge> 90600 then Inr ''get_pg_activity_post_90600''
      else if pg_num_version self \<ge> 90200 then Inr ''get_pg_activity_post_90200''
      else if pg_num_version self < 90200 then Inr ''get_pg_activity''
      else Inl UnboundLocalError)"

text \<open>
  The specification's reading of the same dispatch: a table of lower bounds, and the
  variant of the greatest bound not above the version, the legacy query when there is
  none.
\<close>

definition activity_brackets :: "(int \<times> string) list" where
  "activity_brackets =
     [(110000, ''get_pg_activity_post_110000''),
      (100000, ''get_pg_activity_post_100000''),
      (90600, ''get_pg_activity_post_90600''),
      (90200, ''get_pg_activity_post_90200'')]"

definition greatest_bound_variant :: "(int \<times> string) list \<Rightarrow> string \<Rightarrow> int \<Rightarrow> string" where
  "greatest_bound_variant brackets legacy v =
     (let bounds = filter (\<lambda>b. b \<le> v) (map fst brackets)
      in if bounds = [] then legacy
         else case map_of brackets (Max (set bounds)) of Some q \<Rightarrow> q | None \<Rightarrow> legacy)"

subsection \<open>Local connection\<close>

definition pg_is_local :: "Data \<Rightarrow> bool" where
  "pg_is_local self =
     (let (inet_server_addr, inet_client_addr) = get_pga_inet_addresses (pg_conn self)
      in if inet_server_addr = inet_client_addr then True else False)"

subsection \<open>Database counters and their rates\<close>

text \<open>
  The dictionary \<^verbatim>\<open>pg_get_db_info\<close> returns, and accepts as the previous snapshot.
\<close>

record DbInfoDict =
  timestamp :: real
  no_xact :: int
  total_size :: int
  max_length :: int
  tps :: int
  size_ev :: real

text \<open>
  A float is the real number it stands for. Every float operation rounds its exact
  result to a float: that rounding is the parameter \<open>fl\<close> (round to nearest, in IEEE
  arithmetic), of which the definitions assume nothing. Python's true division raises
  on a zero divisor; \<^verbatim>\<open>int(x)\<close> of a float drops the fractional part, rounding towards
  zero.
\<close>

definition py_truediv :: "(real \<Rightarrow> real) \<Rightarrow> real \<Rightarrow> real \<Rightarrow> py_exception + real" where
  "py_truediv fl a b = (if b = 0 then Inl ZeroDivisionError else Inr (fl (a / b)))"

definition py_int :: "real \<Rightarrow> int" where
  "py_int x = (if x < 0 then - \<lfloor>- x\<rfloor> else \<lfloor>x\<rfloor>)"

text \<open>
  The \<^verbatim>\<open>try\<close> block: \<open>tps\<close> and \<open>size_ev\<close> start at zero, each assignment happens
  only when its division returned, and \<^verbatim>\<open>except ZeroDivisionError: pass\<close> keeps what was
  assigned so far. Any other exception leaves the function. The integer deltas are
  exact; they become floats for the division (\<^verbatim>\<open>int / float\<close>, \<^verbatim>\<open>float(int)\<close>), and the
  difference of the two timestamps is a float subtraction.
\<close>

definition db_info_rates ::
  "(real \<Rightarrow> real) \<Rightarrow> DbInfoDict option \<Rightarrow> real \<Rightarrow> int \<Rightarrow> int \<Rightarrow>
     py_exception + int \<times> real" where
  "db_info_rates fl prev_db_infos ts xact tsize =
     (case prev_db_infos of
        None \<Rightarrow> Inr (0, 0)
      | Some prev \<Rightarrow>
          (case py_truediv fl (fl (of_int (xact - no_xact prev))) (fl (ts - timestamp prev)) of
             Inl e \<Rightarrow> if e = ZeroDivisionError then Inr (0, 0) else Inl e
           | Inr q \<Rightarrow>
               (case py_truediv fl (fl (of_int (tsize - total_size prev)))
                       (fl (ts - timestamp prev)) of
                  Inl e \<Rightarrow> if e = ZeroDivisionError then Inr (py_int q, 0) else Inl e
                | Inr g \<Rightarrow> Inr (py_int q, g))))"

definition pg_get_db_info ::
  "(real \<Rightarrow> real) \<Rightarrow> Data \<Rightarrow> DbInfoDict option \<Rightarrow> bool \<Rightarrow> bool \<Rightarrow>
     py_exception + DbInfoDict" where
  "pg_get_db_info fl self prev_db_infos using_rds' skip_sizes =
     (let prev_total_size' =
            (case prev_db_infos of None \<Rightarrow> PyStr ''0'' | Some prev \<Rightarrow> PyInt (total_size prev));
          (ts, xact, tsize, maxlen) =
            get_db_info (pg_conn self)
              \<lparr>skip_db_size = skip_sizes, prev_total_size = prev_total_size',
               using_rds = using_rds'\<rparr>
      in case db_info_rates fl prev_db_infos ts xact tsize of
           Inl e \<Rightarrow> Inl e
         | Inr (tps', size_ev') \<Rightarrow>
             Inr \<lparr>timestamp = ts, no_xact = xact, total_size = tsize, max_length = maxlen,
                  tps = tps', size_ev = size_ev'\<rparr>)"

subsection \<open>Reconnecting\<close>

text \<open>
  \<^verbatim>\<open>pg_get_version\<close> returns the first column of the row of the \<^verbatim>\<open>get_version\<close> query.
  \<^verbatim>\<open>Data.try_reconnect\<close> calls \<^verbatim>\<open>psycopg3.connect(autocommit=True, **self.dsn_parameters)\<close>;
  the client library is the parameter \<open>connect\<close>, which returns a connection or raises.
  Only \<^verbatim>\<open>InterfaceError\<close> and \<^verbatim>\<open>OperationalError\<close> are caught. The class is frozen and
  the method assigns to no attribute of \<open>self\<close>: the first component of the result is the
  receiver after the call, the second what the call returns or raises.
\<close>

definition pg_get_version :: "Connection \<Rightarrow> string" where
  "pg_get_version pg_conn' = get_version pg_conn'"

definition try_reconnect ::
  "((string \<times> string) list \<Rightarrow> py_exception + Connection) \<Rightarrow> Data \<Rightarrow>
     Data \<times> (py_exception + Data option)" where
  "try_reconnect connect self =
     (self,
      case connect (dsn_parameters self) of
        Inl e \<Rightarrow> if is_InterfaceError e \<or> is_OperationalError e then Inr None else Inl e
      | Inr pg_conn' \<Rightarrow>
          Inr (Some (self\<lparr>pg_conn := pg_conn', dsn_parameters := get_parameters pg_conn'\<rparr>)))"

subsection \<open>The caller-facing connect wrapper\<close>

text \<open>
  \<^verbatim>\<open>str(err)\<close>, and \<^verbatim>\<open>str.replace(old, new)\<close>: every occurrence of \<open>old\<close>, found from
  left to right without overlap, is replaced.
\<close>

fun py_str :: "py_exception \<Rightarrow> string" where
  "py_str (InterfaceError m) = m"
| "py_str (OperationalError m) = m"
| "py_str (InvalidPassword m) = m"
| "py_str (Error m) = m"
| "py_str (Exception m) = m"
| "py_str (SystemExit m) = m"
| "py_str e = []"

fun replace_str :: "string \<Rightarrow> string \<Rightarrow> string \<Rightarrow> string" where
  "replace_str old new [] = (if old = [] then new else [])"
| "replace_str old new (c # cs) =
     (if old = [] then new @ c # replace_str old new cs
      else if take (length old) (c # cs) = old
      then new @ replace_str old new (drop (length old) (c # cs))
      else c # replace_str old new cs)"

text \<open>
  The module function \<^verbatim>\<open>pg_connect\<close>. \<open>connect nb_try password\<close> is the outcome of the call
  of \<^verbatim>\<open>Data.pg_connect\<close> in iteration \<open>nb_try\<close> with that password (the other arguments do
  not change between iterations); \<open>getpass\<close> is what the prompt returns; \<open>clean_str\<close> is
  the helper imported from \<^verbatim>\<open>pgactivity/utils.py\<close>, taken as a parameter. The loop runs
  over \<^verbatim>\<open>range(2)\<close>; the calls made to the outside are recorded in order. Leaving the
  loop without \<^verbatim>\<open>break\<close> would reach \<^verbatim>\<open>return data\<close> with \<open>data\<close> unbound.
\<close>

datatype event = Connect "string option" | Getpass

fun pg_connect_loop ::
  "(nat \<Rightarrow> string option \<Rightarrow> py_exception + 'd) \<Rightarrow> string \<Rightarrow> (string \<Rightarrow> string) \<Rightarrow> bool \<Rightarrow>
     nat list \<Rightarrow> string option \<Rightarrow> event list \<Rightarrow> event list \<times> (py_exception + 'd)" where
  "pg_connect_loop connect getpass clean_str exit_on_failed [] password trace =
     (trace, Inl UnboundLocalError)"
| "pg_connect_loop connect getpass clean_str exit_on_failed (nb_try # tries) password trace =
     (case connect nb_try password of
        Inr data \<Rightarrow> (trace @ [Connect password], Inr data)
      | Inl err \<Rightarrow>
          if is_OperationalError err then
            if nb_try < 1 \<and> is_InvalidPassword err then
              pg_connect_loop connect getpass clean_str exit_on_failed tries (Some getpass)
                (trace @ [Connect password, Getpass])
            else if exit_on_failed then
              (trace @ [Connect password],
               Inl (SystemExit (''pg_activity: FATAL: '' @
                      clean_str (replace_str ''FATAL:'' [] (py_str err)))))
            else (trace @ [Connect password], Inl (Exception ''Could not connect to PostgreSQL''))
          else (trace @ [Connect password], Inl err))"

definition pg_connect ::
  "(nat \<Rightarrow> string option \<Rightarrow> py_exception + 'd) \<Rightarrow> string \<Rightarrow> (string \<Rightarrow> string) \<Rightarrow>
     string option \<Rightarrow> bool \<Rightarrow> event list \<times> (py_exception + 'd)" where
  "pg_connect connect getpass clean_str password exit_on_failed =
     pg_connect_loop connect getpass clean_str exit_on_failed [0, 1] password []"

text \<open>
  What the wrapper raises for an operational error that it does not retry: the two
  branches \<^verbatim>\<open>elif exit_on_failed\<close> and \<^verbatim>\<open>else\<close>, named for the statement of the theorem.
\<close>

definition connect_failure :: "(string \<Rightarrow> string) \<Rightarrow> bool \<Rightarrow> py_exception \<Rightarrow> py_exception" where
  "connect_failure clean_str exit_on_failed err =
     (if exit_on_failed
      then SystemExit (''pg_activity: FATAL: '' @ clean_str (replace_str ''FATAL:'' [] (py_str err)))
      else Exception ''Could not connect to PostgreSQL'')"

subsection \<open>Example values\<close>

text \<open>
  A server that answers every counter query with one fixed row, a session on it, and a
  previous snapshot; the theorems below are instantiated at these.
\<close>

definition example_conn :: "real \<times> int \<times> int \<times> int \<Rightarrow> Connection" where
  "example_conn row =
     \<lparr>get_version = ''PostgreSQL 13.0'', get_parameters = [(''host'', ''db1'')],
      get_pga_inet_addresses = (None, None), get_db_info = (\<lambda>p. row)\<rparr>"

definition example_session :: "real \<times> int \<times> int \<times> int \<Rightarrow> Data" where
  "example_session row =
     \<lparr>pg_conn = example_conn row, pg_version = ''PostgreSQL 11.9'', pg_num_version = 110900,
      min_duration = 0, dsn_parameters = [(''host'', ''db0'')]\<rparr>"

definition example_snapshot :: "real \<Rightarrow> int \<Rightarrow> int \<Rightarrow> DbInfoDict" where
  "example_snapshot ts xact tsize =
     \<lparr>timestamp = ts, no_xact = xact, total_size = tsize, max_length = 1, tps = 0, size_ev = 0\<rparr>"

section \<open>Properties\<close>

subsection \<open>Duration column\<close>

text \<open>
  C9. For every integer duration mode the selector returns \<^verbatim>\<open>query_start\<close> for 1,
  \<^verbatim>\<open>xact_start\<close> for 2, \<^verbatim>\<open>backend_start\<close> for 3 and \<^verbatim>\<open>query_start\<close> for every other
  value, 0 and 9 among them; it always returns and never raises.
\<close>

theorem get_duration_column_total:
  "get_duration_column m =
     Inr (if m = 2 then ''xact_start'' else if m = 3 then ''backend_start'' else ''query_start'')
   \<and> get_duration_column 1 = Inr ''query_start''
   \<and> get_duration_column 2 = Inr ''xact_start''
   \<and> get_duration_column 3 = Inr ''backend_start''
   \<and> get_duration_column 0 = Inr ''query_start''
   \<and> get_duration_column 9 = Inr ''query_start''"
  by (simp add: get_duration_column_def py_getitem_def)

subsection \<open>Activity query selection\<close>

lemma greatest_bound_variant_activity:
  "greatest_bound_variant activity_brackets ''get_pg_activity'' v =
     (if v \<ge> 110000 then ''get_pg_activity_post_110000''
      else if v \<ge> 100000 then ''get_pg_activity_post_100000''
      else if v \<ge> 90600 then ''get_pg_activity_post_90600''
      else if v \<ge> 90200 then ''get_pg_activity_post_90200''
      else ''get_pg_activity'')"
  by (simp add: greatest_bound_variant_def activity_brackets_def)

text \<open>
  C7. The activity query is the variant whose lower bound is the greatest bound not
  above the session's numeric version, the legacy query below every bound: 110000
  selects the variant for 110000 and later, 109999 the one for 100000 and later, 90100
  the legacy one.
\<close>

theorem pg_get_activities_query_greatest_bound:
  "pg_get_activities_query self =
     Inr (greatest_bound_variant activity_brackets ''get_pg_activity'' (pg_num_version self))
   \<and> pg_get_activities_query (self\<lparr>pg_num_version := 110000\<rparr>) = Inr ''get_pg_activity_post_110000''
   \<and> pg_get_activities_query (self\<lparr>pg_num_version := 109999\<rparr>) = Inr ''get_pg_activity_post_100000''
   \<and> pg_get_activities_query (self\<lparr>pg_num_version := 90100\<rparr>) = Inr ''get_pg_activity''"
  by (simp add: greatest_bound_variant_activity pg_get_activities_query_def)

subsection \<open>Local connection\<close>

text \<open>
  C10. The connection is local exactly when the address the server sees and the
  address the client sees are equal; two absent (NULL) addresses, as on a Unix socket,
  are equal, so the answer is true.
\<close>

theorem pg_is_local_iff:
  "pg_is_local self =
     (fst (get_pga_inet_addresses (pg_conn self)) = snd (get_pga_inet_addresses (pg_conn self)))
   \<and> pg_is_local (self\<lparr>pg_conn := (pg_conn self)\<lparr>get_pga_inet_addresses := (None, None)\<rparr>\<rparr>)"
  by (simp add: pg_is_local_def split: prod.splits)

subsection \<open>Database counters and their rates\<close>

lemma py_int_floor_ceiling: "py_int x = (if x < 0 then \<lceil>x\<rceil> else \<lfloor>x\<rfloor>)"
  by (simp add: py_int_def ceiling_def)

text \<open>
  C4. With no previous snapshot, and with a previous snapshot whose timestamp equals the
  current one, \<^verbatim>\<open>pg_get_db_info\<close> returns \<open>tps = 0\<close> and \<open>size_ev = 0.0\<close> whatever the
  counters are; it returns, so no division error leaves the function. (The difference of
  two equal floats is the float zero: \<open>fl 0 = 0\<close>.)
\<close>

theorem pg_get_db_info_degenerate:
  assumes "get_db_info (pg_conn self)
             \<lparr>skip_db_size = sk,
              prev_total_size = (case prev of None \<Rightarrow> PyStr ''0'' | Some p \<Rightarrow> PyInt (total_size p)),
              using_rds = rds\<rparr> = (ts, xact, tsize, maxlen)"
    and "prev = None \<or> (\<exists>p. prev = Some p \<and> timestamp p = ts)"
    and "fl 0 = 0"
  shows "pg_get_db_info fl self prev rds sk =
     Inr \<lparr>timestamp = ts, no_xact = xact, total_size = tsize, max_length = maxlen,
          tps = 0, size_ev = 0\<rparr>"
  using assms
  by (auto simp: pg_get_db_info_def db_info_rates_def py_truediv_def split: option.splits)

theorem pg_get_db_info_degenerate_witness:
  "pg_get_db_info (\<lambda>x. x) (example_session (5, 7, 9, 1)) None False False =
     Inr \<lparr>timestamp = 5, no_xact = 7, total_size = 9, max_length = 1, tps = 0, size_ev = 0\<rparr>
   \<and> pg_get_db_info (\<lambda>x. x) (example_session (5, 7, 9, 1)) (Some (example_snapshot 5 3 2))
        False False =
     Inr \<lparr>timestamp = 5, no_xact = 7, total_size = 9, max_length = 1, tps = 0, size_ev = 0\<rparr>"
proof
  show "pg_get_db_info (\<lambda>x. x) (example_session (5, 7, 9, 1)) None False False =
     Inr \<lparr>timestamp = 5, no_xact = 7, total_size = 9, max_length = 1, tps = 0, size_ev = 0\<rparr>"
    by (rule pg_get_db_info_degenerate) (simp_all add: example_session_def example_conn_def)
  show "pg_get_db_info (\<lambda>x. x) (example_session (5, 7, 9, 1)) (Some (example_snapshot 5 3 2))
        False False =
     Inr \<lparr>timestamp = 5, no_xact = 7, total_size = 9, max_length = 1, tps = 0, size_ev = 0\<rparr>"
    by (rule pg_get_db_info_degenerate)
      (simp_all add: example_session_def example_conn_def example_snapshot_def)
qed

text \<open>
  C1, as amended. With a previous snapshot and two different timestamps (their
  difference, as a float, is not zero), \<^verbatim>\<open>pg_get_db_info\<close> returns and \<open>tps\<close> is the
  quotient of the transaction delta by the time delta, as the float division gives it,
  rounded towards zero (\<^verbatim>\<open>int(...)\<close>): its floor when the quotient is not negative, its
  ceiling when it is negative.
\<close>

theorem pg_get_db_info_tps_truncates:
  assumes "get_db_info (pg_conn self)
             \<lparr>skip_db_size = sk, prev_total_size = PyInt (total_size p), using_rds = rds\<rparr> =
           (ts, xact, tsize, maxlen)"
    and "fl (ts - timestamp p) \<noteq> 0"
    and "q = fl (fl (real_of_int (xact - no_xact p)) / fl (ts - timestamp p))"
  shows "\<exists>d. pg_get_db_info fl self (Some p) rds sk = Inr d \<and>
     tps d = (if q < 0 then \<lceil>q\<rceil> else \<lfloor>q\<rfloor>)"
  using assms
  by (simp add: pg_get_db_info_def db_info_rates_def py_truediv_def py_int_floor_ceiling)

theorem pg_get_db_info_tps_truncates_witness:
  "(\<exists>d. pg_get_db_info (\<lambda>x. x) (example_session (8, 3, 9, 1)) (Some (example_snapshot 10 0 2))
          False False = Inr d \<and> tps d = - 1)
   \<and> (\<exists>d. pg_get_db_info (\<lambda>x. x) (example_session (12, 7, 9, 1)) (Some (example_snapshot 10 0 2))
          False False = Inr d \<and> tps d = 3)"
proof
  have row: "get_db_info (pg_conn (example_session (8, 3, 9, 1)))
          \<lparr>skip_db_size = False, prev_total_size = PyInt (total_size (example_snapshot 10 0 2)),
           using_rds = False\<rparr> = (8, 3, 9, 1)"
    by (simp add: example_session_def example_conn_def)
  have dt: "(\<lambda>x. x) (8 - timestamp (example_snapshot 10 0 2)) \<noteq> (0::real)"
    by (simp add: example_snapshot_def)
  have q: "- (3 / 2) =
      (\<lambda>x. x) ((\<lambda>x. x) (real_of_int (3 - no_xact (example_snapshot 10 0 2))) /
        (\<lambda>x::real. x) (8 - timestamp (example_snapshot 10 0 2)))"
    by (simp add: example_snapshot_def)
  show "\<exists>d. pg_get_db_info (\<lambda>x. x) (example_session (8, 3, 9, 1)) (Some (example_snapshot 10 0 2))
          False False = Inr d \<and> tps d = - 1"
    using pg_get_db_info_tps_truncates [OF row dt q] by simp
next
  have row: "get_db_info (pg_conn (example_session (12, 7, 9, 1)))
          \<lparr>skip_db_size = False, prev_total_size = PyInt (total_size (example_snapshot 10 0 2)),
           using_rds = False\<rparr> = (12, 7, 9, 1)"
    by (simp add: example_session_def example_conn_def)
  have dt: "(\<lambda>x. x) (12 - timestamp (example_snapshot 10 0 2)) \<noteq> (0::real)"
    by (simp add: example_snapshot_def)
  have q: "7 / 2 =
      (\<lambda>x. x) ((\<lambda>x. x) (real_of_int (7 - no_xact (example_snapshot 10 0 2))) /
        (\<lambda>x::real. x) (12 - timestamp (example_snapshot 10 0 2)))"
    by (simp add: example_snapshot_def)
  show "\<exists>d. pg_get_db_info (\<lambda>x. x) (example_session (12, 7, 9, 1)) (Some (example_snapshot 10 0 2))
          False False = Inr d \<and> tps d = 3"
    using pg_get_db_info_tps_truncates [OF row dt q] by simp
qed

text \<open>
  C1 as stated fails on an out-of-order pair: the previous snapshot at time 10 with 0
  transactions, the current one at time 8 with 3. Every intermediate value is a float
  (3, -2 and the quotient \<open>-1.5\<close>), so nothing is rounded; the code returns \<open>tps = -1\<close>,
  the floor is \<open>-2\<close>.
\<close>

theorem pg_get_db_info_tps_floor_counterexample:
  "pg_get_db_info (\<lambda>x. x) (example_session (8, 3, 9, 1)) (Some (example_snapshot 10 0 2))
      False False =
     Inr \<lparr>timestamp = 8, no_xact = 3, total_size = 9, max_length = 1, tps = - 1, size_ev = - (7 / 2)\<rparr>
   \<and> \<lfloor>real_of_int (3 - 0) / (8 - 10)\<rfloor> = - 2"
  by (simp add: pg_get_db_info_def db_info_rates_def py_truediv_def py_int_def
      example_session_def example_conn_def example_snapshot_def)

subsection \<open>The regular-expression matcher\<close>

lemma concat_map_all_Nil: "(\<And>x. x \<in> set xs \<Longrightarrow> f x = []) \<Longrightarrow> concat (map f xs) = []"
  by (induction xs) auto

lemma rev_upt_1_Suc: "0 < L \<Longrightarrow> rev [Suc 0 ..< Suc L] = L # rev [Suc 0 ..< L]"
  by (cases L) auto

lemma length_takeWhile_le_length: "length (takeWhile P xs) \<le> length xs"
  by (rule length_takeWhile_le)

lemma take_length_takeWhile: "take (length (takeWhile P xs)) xs = takeWhile P xs"
  by (induction xs) auto

lemma drop_length_takeWhile: "drop (length (takeWhile P xs)) xs = dropWhile P xs"
  by (induction xs) auto

lemma re_run_Group_Digits:
  "re_run (Group n Digits) t g =
     map (\<lambda>k. ((n, take k t) # g, drop k t)) (rev [1 ..< Suc (length (takeWhile is_digit t))])"
proof -
  have "k \<in> set (rev [1 ..< Suc (length (takeWhile is_digit t))]) \<Longrightarrow> length t - length (drop k t) = k" for k
    using length_takeWhile_le [of is_digit t] by auto
  then show ?thesis by (simp add: comp_def)
qed

lemma drop_in_digits:
  assumes "k < length (takeWhile is_digit t)"
  shows "drop k t \<noteq> [] \<and> is_digit (hd (drop k t))"
proof -
  have kt: "k < length t" using assms length_takeWhile_le [of is_digit t] by simp
  have "takeWhile is_digit t ! k = t ! k" using assms by (rule takeWhile_nth)
  moreover have "is_digit (takeWhile is_digit t ! k)"
    using assms nth_mem set_takeWhileD by metis
  ultimately show ?thesis using kt by (simp add: hd_drop_conv_nth)
qed

lemma re_run_Seq_Group_Digits:
  assumes fail: "\<And>t' g'. t' \<noteq> [] \<Longrightarrow> is_digit (hd t') \<Longrightarrow> re_run K t' g' = []"
  shows "re_run (Seq (Group n Digits) K) t g =
     (if takeWhile is_digit t = [] then []
      else re_run K (dropWhile is_digit t) ((n, takeWhile is_digit t) # g))"
proof (cases "takeWhile is_digit t = []")
  case True
  then show ?thesis by (simp add: re_run_Group_Digits del: re_run.simps(6))
next
  case False
  define L where "L = length (takeWhile is_digit t)"
  have L: "0 < L" using False by (simp add: L_def)
  have short: "concat (map (\<lambda>k. re_run K (drop k t) ((n, take k t) # g)) (rev [1 ..< L])) = []"
    by (rule concat_map_all_Nil) (use drop_in_digits fail in \<open>auto simp: L_def\<close>)
  have "re_run (Seq (Group n Digits) K) t g =
      concat (map (\<lambda>k. re_run K (drop k t) ((n, take k t) # g)) (rev [1 ..< Suc L]))"
    by (simp add: re_run_Group_Digits comp_def L_def del: upt_Suc re_run.simps(6))
  also have "\<dots> = re_run K (drop L t) ((n, take L t) # g)"
    unfolding One_nat_def rev_upt_1_Suc [OF L] using short [unfolded One_nat_def]
    by (simp only: list.map concat.simps append_Nil2)
  finally show ?thesis
    using False by (simp add: L_def take_length_takeWhile drop_length_takeWhile)
qed

lemma re_run_Seq_Group_Digits_first:
  "\<exists>more. re_run (Seq (Group n Digits) K) t g =
     (if takeWhile is_digit t = [] then []
      else re_run K (dropWhile is_digit t) ((n, takeWhile is_digit t) # g) @ more)"
proof (cases "takeWhile is_digit t = []")
  case True
  then show ?thesis by (simp add: re_run_Group_Digits del: re_run.simps(6))
next
  case False
  define L where "L = length (takeWhile is_digit t)"
  have L: "0 < L" using False by (simp add: L_def)
  have "re_run (Seq (Group n Digits) K) t g =
      concat (map (\<lambda>k. re_run K (drop k t) ((n, take k t) # g)) (rev [1 ..< Suc L]))"
    by (simp add: re_run_Group_Digits comp_def L_def del: upt_Suc re_run.simps(6))
  also have "\<dots> = re_run K (drop L t) ((n, take L t) # g) @
       concat (map (\<lambda>k. re_run K (drop k t) ((n, take k t) # g)) (rev [1 ..< L]))"
    unfolding One_nat_def rev_upt_1_Suc [OF L]
    by (simp only: list.map concat.simps)
  finally show ?thesis
    using False by (simp add: L_def take_length_takeWhile drop_length_takeWhile)
qed

lemma re_run_Seq_Lit:
  "re_run (Seq (Lit s) K) t g = (if take (length s) t = s then re_run K (drop (length s) t) g else [])"
  by simp

lemma first_of_simps [simp]:
  "first_of [] = None" "first_of (x # xs) = Some x"
  by (simp_all add: first_of_def)

lemma first_of_append: "first_of (xs @ ys) = (case first_of xs of Some x \<Rightarrow> Some x | None \<Rightarrow> first_of ys)"
  by (cases xs) simp_all

lemma first_of_Group_Digits:
  "first_of (re_run (Group n Digits) t g) =
     (if takeWhile is_digit t = [] then None
      else Some ((n, takeWhile is_digit t) # g, dropWhile is_digit t))"
proof (cases "takeWhile is_digit t = []")
  case True
  then show ?thesis by (simp add: re_run_Group_Digits del: re_run.simps(6))
next
  case False
  then have L: "0 < length (takeWhile is_digit t)" by simp
  show ?thesis
    unfolding re_run_Group_Digits One_nat_def rev_upt_1_Suc [OF L]
    using False by (simp add: take_length_takeWhile drop_length_takeWhile)
qed

lemma is_digit_cases:
  "is_digit c \<Longrightarrow> c \<noteq> CHR ''.'' \<and> c \<noteq> CHR ''d'' \<and> c \<noteq> CHR ''b'' \<and> c \<noteq> CHR ''r''"
  by (auto simp: is_digit_def)

lemma patch_first:
  "first_of (re_run (Opt (Seq (Lit ''.'') (Group 4 Digits))) t g) = Some (patch_part t g)"
proof -
  have "first_of (re_run (Seq (Lit ''.'') (Group 4 Digits)) t g) =
     (if take 1 t = ''.'' \<and> takeWhile is_digit (drop 1 t) \<noteq> []
      then Some ((4, takeWhile is_digit (drop 1 t)) # g, dropWhile is_digit (drop 1 t)) else None)"
    unfolding re_run_Seq_Lit by (simp add: first_of_Group_Digits del: re_run.simps)
  then show ?thesis
    unfolding re_run.simps(5) first_of_append by (simp add: patch_part_def del: re_run.simps)
qed

lemma minor_first:
  "first_of (re_run (Seq (Group 3 Digits) (Opt (Seq (Lit ''.'') (Group 4 Digits)))) t g) =
     (if takeWhile is_digit t = [] then None
      else Some (patch_part (dropWhile is_digit t) ((3, takeWhile is_digit t) # g)))"
proof -
  obtain more where
    "re_run (Seq (Group 3 Digits) (Opt (Seq (Lit ''.'') (Group 4 Digits)))) t g =
       (if takeWhile is_digit t = [] then []
        else re_run (Opt (Seq (Lit ''.'') (Group 4 Digits))) (dropWhile is_digit t)
               ((3, takeWhile is_digit t) # g) @ more)"
    using re_run_Seq_Group_Digits_first by blast
  then show ?thesis
    by (simp add: first_of_append patch_first del: re_run.simps)
qed

lemma dot_fails_on_digit:
  assumes "t \<noteq> []" "is_digit (hd t)"
  shows "re_run (Seq (Lit ''.'') K) t g = []"
proof -
  obtain c cs where "t = c # cs" using assms(1) by (cases t) auto
  then show ?thesis using assms(2) is_digit_cases [of c] by simp
qed

lemma re_run_Seq_space:
  "re_run (Seq (Lit '' '') K) t g = (if take 1 t = '' '' then re_run K (drop 1 t) g else [])"
  by simp

lemma re_run_Seq_dot:
  "re_run (Seq (Lit ''.'') K) t g = (if take 1 t = ''.'' then re_run K (drop 1 t) g else [])"
  by simp

lemma major_run:
  "re_run (Seq (Group 2 Digits) (Seq (Lit ''.'') K)) t g =
     (if takeWhile is_digit t = [] then []
      else re_run (Seq (Lit ''.'') K) (dropWhile is_digit t) ((2, takeWhile is_digit t) # g))"
  by (rule re_run_Seq_Group_Digits) (rule dot_fails_on_digit)

lemma stable_tail_first:
  "first_of (re_run (Seq (Group 2 Digits) (Seq (Lit ''.'')
      (Seq (Group 3 Digits) (Opt (Seq (Lit ''.'') (Group 4 Digits)))))) t g) = stable_tail t g"
  unfolding major_run re_run_Seq_dot
  by (simp add: minor_first stable_tail_def Let_def del: re_run.simps)

lemma take_append_eq:
  assumes "length a = m"
  shows "(take (m + n) t = a @ b) = (take m t = a \<and> take n (drop m t) = b)"
proof (cases "m \<le> length t")
  case True
  then have "length (take m t) = length a" using assms by simp
  then show ?thesis by (simp add: take_add)
next
  case False
  then have "length (take (m + n) t) < m" "length (take m t) < m" by simp_all
  then have "take (m + n) t \<noteq> a @ b" "take m t \<noteq> a" using assms by auto
  then show ?thesis by simp
qed

lemma take_eq_imp_le:
  assumes "take n t = s" "length s = n"
  shows "n \<le> length t" "length t - (length t - n) = n"
proof -
  have "length (take n t) = n" using assms by simp
  then show "n \<le> length t" by simp
  then show "length t - (length t - n) = n" by simp
qed

lemma product_exclusive:
  assumes "take 10 t = ''PostgreSQL''"
  shows "take 12 t \<noteq> ''EnterpriseDB''"
proof
  assume b: "take 12 t = ''EnterpriseDB''"
  have "take 1 (take 10 t) = take 1 (take 12 t)" by (simp only: take_take) simp
  then show False by (simp only: assms b) simp
qed

lemma product_group:
  "re_run product_re t g =
     (if take 10 t = ''PostgreSQL'' then [((1, ''PostgreSQL'') # g, drop 10 t)]
      else if take 12 t = ''EnterpriseDB'' then [((1, ''EnterpriseDB'') # g, drop 12 t)]
      else [])"
proof -
  have lP: "length ''PostgreSQL'' = 10" and lE: "length ''EnterpriseDB'' = 12" by simp_all
  have P: "take 10 t = ''PostgreSQL'' \<Longrightarrow> take (length t - (length t - 10)) t = ''PostgreSQL''"
    using take_eq_imp_le(2) [of 10 t "''PostgreSQL''"] by simp
  have E: "take 12 t = ''EnterpriseDB'' \<Longrightarrow> take (length t - (length t - 12)) t = ''EnterpriseDB''"
    using take_eq_imp_le(2) [of 12 t "''EnterpriseDB''"] by simp
  have run: "re_run product_re t g =
     map (\<lambda>(g', t'). ((1, take (length t - length t') t) # g', t'))
       ((if take 10 t = ''PostgreSQL'' then [(g, drop 10 t)] else []) @
        (if take 12 t = ''EnterpriseDB'' then [(g, drop 12 t)] else []))"
    by (simp only: product_re_def re_run.simps lP lE)
  show ?thesis
  proof (cases "take 10 t = ''PostgreSQL''")
    case True
    then have "take 12 t \<noteq> ''EnterpriseDB''" by (rule product_exclusive)
    then show ?thesis
      unfolding run using True P [OF True]
      by (simp only: if_True if_False list.map append_Nil2 case_prod_conv length_drop simp_thms)
  next
    case False
    show ?thesis
    proof (cases "take 12 t = ''EnterpriseDB''")
      case True
      then show ?thesis
        unfolding run using False E [OF True]
        by (simp only: if_True if_False list.map append_Nil case_prod_conv length_drop simp_thms)
    next
      case F2: False
      then show ?thesis
        unfolding run using False
        by (simp only: if_False list.map append_Nil simp_thms)
    qed
  qed
qed

lemma product_run:
  "re_run (Seq product_re (Seq (Lit '' '') K)) t g =
     (if take 11 t = ''PostgreSQL '' then re_run K (drop 11 t) ((1, ''PostgreSQL'') # g)
      else if take 13 t = ''EnterpriseDB '' then re_run K (drop 13 t) ((1, ''EnterpriseDB'') # g)
      else [])"
proof -
  have P: "(take 11 t = ''PostgreSQL '') = (take 10 t = ''PostgreSQL'' \<and> take 1 (drop 10 t) = '' '')"
    using take_append_eq [of "''PostgreSQL''" 10 1 t "'' ''"] by simp
  have E: "(take 13 t = ''EnterpriseDB '') = (take 12 t = ''EnterpriseDB'' \<and> take 1 (drop 12 t) = '' '')"
    using take_append_eq [of "''EnterpriseDB''" 12 1 t "'' ''"] by simp
  have "re_run (Seq product_re (Seq (Lit '' '') K)) t g =
      concat (map (\<lambda>(g', t'). re_run (Seq (Lit '' '') K) t' g') (re_run product_re t g))"
    by (simp only: re_run.simps)
  also have "\<dots> =
     (if take 10 t = ''PostgreSQL'' then re_run (Seq (Lit '' '') K) (drop 10 t) ((1, ''PostgreSQL'') # g)
      else if take 12 t = ''EnterpriseDB'' then re_run (Seq (Lit '' '') K) (drop 12 t) ((1, ''EnterpriseDB'') # g)
      else [])"
    unfolding product_group by (simp del: re_run.simps)
  also have "\<dots> =
     (if take 11 t = ''PostgreSQL '' then re_run K (drop 11 t) ((1, ''PostgreSQL'') # g)
      else if take 13 t = ''EnterpriseDB '' then re_run K (drop 13 t) ((1, ''EnterpriseDB'') # g)
      else [])"
    unfolding re_run_Seq_space P E using product_exclusive [of t] by (simp del: re_run.simps)
  finally show ?thesis .
qed

lemma stable_first: "first_of (re_run stable_re t []) = with_product stable_tail t"
  unfolding stable_re_def product_run
  by (simp add: stable_tail_first with_product_def del: re_run.simps)

lemma suffix_fails:
  assumes "t \<noteq> []" "is_digit (hd t) \<or> hd t = CHR ''.''"
  shows "re_run suffix_re t g = []"
proof -
  obtain c cs where "t = c # cs" using assms(1) by (cases t) auto
  then show ?thesis using assms(2) is_digit_cases [of c] by (auto simp: suffix_re_def)
qed

lemma first_of_Digits:
  "first_of (re_run Digits t g) =
     (if takeWhile is_digit t = [] then None else Some (g, dropWhile is_digit t))"
proof (cases "takeWhile is_digit t = []")
  case True
  then show ?thesis by simp
next
  case False
  then have L: "0 < length (takeWhile is_digit t)" by simp
  show ?thesis
    unfolding re_run.simps One_nat_def rev_upt_1_Suc [OF L]
    using False by (simp add: drop_length_takeWhile)
qed

lemma first_of_map: "first_of (map f xs) = map_option f (first_of xs)"
  by (cases xs) simp_all

lemma length_dropWhile_eq: "length (dropWhile P xs) = length xs - length (takeWhile P xs)"
  by (induction xs) auto

lemma capture_prefix:
  assumes "take n t = s" "length s = n"
  shows "take (length t - length (dropWhile P (drop n t))) t = s @ takeWhile P (drop n t)"
proof -
  define L where "L = length (takeWhile P (drop n t))"
  have n: "n \<le> length t" using assms by (rule take_eq_imp_le(1))
  have "L \<le> length (drop n t)" unfolding L_def by (rule length_takeWhile_le)
  then have "length t - length (dropWhile P (drop n t)) = n + L"
    using n by (simp add: length_dropWhile_eq L_def)
  then show ?thesis
    using assms(1) by (simp add: take_add L_def take_length_takeWhile)
qed

lemma first_of_Lit_Digits:
  "first_of (re_run (Seq (Lit s) Digits) t g) =
     (if take (length s) t = s \<and> takeWhile is_digit (drop (length s) t) \<noteq> []
      then Some (g, dropWhile is_digit (drop (length s) t)) else None)"
  unfolding re_run_Seq_Lit by (simp add: first_of_Digits del: re_run.simps)

lemma suffix_first: "first_of (re_run suffix_re t g) = suffix_part t g"
proof -
  have l5: "length ''devel'' = 5" and l4: "length ''beta'' = 4" and l2: "length ''rc'' = 2"
    by simp_all
  note B = first_of_Lit_Digits [of "''beta''" t g, unfolded l4]
  note R = first_of_Lit_Digits [of "''rc''" t g, unfolded l2]
  have D: "first_of (re_run (Lit ''devel'') t g) =
      (if take 5 t = ''devel'' then Some (g, drop 5 t) else None)"
    by (simp only: re_run.simps l5) simp
  have run: "re_run suffix_re t g =
      map (\<lambda>(g', t'). ((4, take (length t - length t') t) # g', t'))
        (re_run (Lit ''devel'') t g @ re_run (Seq (Lit ''beta'') Digits) t g @
         re_run (Seq (Lit ''rc'') Digits) t g)"
    by (simp only: suffix_re_def re_run.simps(3,6))
  have cd: "take 5 t = ''devel'' \<Longrightarrow> take (length t - length (drop 5 t)) t = ''devel''"
    using take_eq_imp_le(2) [of 5 t "''devel''"] by simp
  have cb: "take 4 t = ''beta'' \<Longrightarrow>
      take (length t - length (dropWhile is_digit (drop 4 t))) t =
        ''beta'' @ takeWhile is_digit (drop 4 t)"
    using capture_prefix [of 4 t "''beta''" is_digit] by simp
  have cr: "take 2 t = ''rc'' \<Longrightarrow>
      take (length t - length (dropWhile is_digit (drop 2 t))) t =
        ''rc'' @ takeWhile is_digit (drop 2 t)"
    using capture_prefix [of 2 t "''rc''" is_digit] by simp
  show ?thesis
    unfolding run first_of_map first_of_append D B R suffix_part_def
    using cd cb cr by (simp del: re_run.simps length_drop)
qed

lemma take1_dot: "take 1 t = ''.'' \<Longrightarrow> t \<noteq> [] \<and> hd t = CHR ''.''"
  by (cases t) auto

lemma digit_not_dot: "t \<noteq> [] \<Longrightarrow> is_digit (hd t) \<Longrightarrow> take 1 t \<noteq> ''.''"
  using is_digit_cases [of "hd t"] by (cases t) auto

lemma minor_suffix_run:
  "re_run (Seq (Group 3 Digits) suffix_re) t g =
     (if takeWhile is_digit t = [] then []
      else re_run suffix_re (dropWhile is_digit t) ((3, takeWhile is_digit t) # g))"
  by (rule re_run_Seq_Group_Digits) (simp add: suffix_fails)

lemma dev_opt_run:
  "re_run (Seq (Opt (Seq (Lit ''.'') (Group 3 Digits))) suffix_re) t g =
     (if take 1 t = ''.'' \<and> takeWhile is_digit (drop 1 t) \<noteq> []
      then re_run suffix_re (dropWhile is_digit (drop 1 t))
             ((3, takeWhile is_digit (drop 1 t)) # g)
      else re_run suffix_re t g)"
proof -
  have split: "re_run (Seq (Opt (Seq (Lit ''.'') (Group 3 Digits))) suffix_re) t g =
      re_run (Seq (Lit ''.'') (Seq (Group 3 Digits) suffix_re)) t g @ re_run suffix_re t g"
    by simp
  show ?thesis
  proof (cases "take 1 t = ''.''")
    case True
    then have "re_run suffix_re t g = []" using take1_dot suffix_fails by blast
    then show ?thesis
      unfolding split re_run_Seq_dot minor_suffix_run using True by simp
  next
    case False
    then show ?thesis unfolding split re_run_Seq_dot by simp
  qed
qed

lemma dev_opt_fails_on_digit:
  assumes "t \<noteq> []" "is_digit (hd t)"
  shows "re_run (Seq (Opt (Seq (Lit ''.'') (Group 3 Digits))) suffix_re) t g = []"
  unfolding dev_opt_run using assms digit_not_dot [OF assms] suffix_fails [of t g] by simp

lemma dev_major_run:
  "re_run (Seq (Group 2 Digits) (Seq (Opt (Seq (Lit ''.'') (Group 3 Digits))) suffix_re)) t g =
     (if takeWhile is_digit t = [] then []
      else re_run (Seq (Opt (Seq (Lit ''.'') (Group 3 Digits))) suffix_re)
             (dropWhile is_digit t) ((2, takeWhile is_digit t) # g))"
  by (rule re_run_Seq_Group_Digits) (rule dev_opt_fails_on_digit)

lemma dev_tail_first:
  "first_of (re_run (Seq (Group 2 Digits)
      (Seq (Opt (Seq (Lit ''.'') (Group 3 Digits))) suffix_re)) t g) = dev_tail t g"
  unfolding dev_major_run dev_opt_run
  by (simp add: suffix_first dev_tail_def Let_def del: re_run.simps)

lemma dev_first: "first_of (re_run dev_re t []) = with_product dev_tail t"
  unfolding dev_re_def product_run
  by (simp add: dev_tail_first with_product_def del: re_run.simps)

lemma re_match_first:
  "re_match r t =
     map_option (\<lambda>(g, rest). (take (length t - length rest) t, g)) (first_of (re_run r t []))"
  by (simp add: re_match_def first_of_def split: list.splits)

lemma foldl_dec_append:
  "foldl (\<lambda>a c. 10 * a + digit_val c) x (ys @ zs) =
     foldl (\<lambda>a c. 10 * a + digit_val c) (foldl (\<lambda>a c. 10 * a + digit_val c) x ys) zs"
  by simp

lemma dec_snoc: "dec (zs @ [z]) = 10 * dec zs + digit_val z"
  by (simp add: dec_def)

lemma foldl_dec_shift:
  "foldl (\<lambda>a c. 10 * a + digit_val c) x zs = x * 10 ^ length zs + dec zs"
proof (induction zs rule: rev_induct)
  case Nil
  show ?case by (simp add: dec_def)
next
  case (snoc z zs)
  have "foldl (\<lambda>a c. 10 * a + digit_val c) x (zs @ [z]) =
      10 * foldl (\<lambda>a c. 10 * a + digit_val c) x zs + digit_val z"
    by simp
  also have "\<dots> = 10 * (x * 10 ^ length zs + dec zs) + digit_val z"
    by (simp only: snoc.IH)
  also have "\<dots> = x * 10 ^ length (zs @ [z]) + dec (zs @ [z])"
    unfolding dec_snoc by (simp add: algebra_simps)
  finally show ?case .
qed

lemma dec_append: "dec (ys @ zs) = dec ys * 10 ^ length zs + dec zs"
proof -
  have "dec (ys @ zs) = foldl (\<lambda>a c. 10 * a + digit_val c) (dec ys) zs"
    by (simp add: dec_def)
  then show ?thesis by (simp only: foldl_dec_shift)
qed

lemma py_int_str_digits:
  "s \<noteq> [] \<Longrightarrow> list_all is_digit s \<Longrightarrow> py_int_str s = Inr (dec s)"
  by (simp add: py_int_str_def dec_def)

lemma py_int_str_eq_dec: "py_int_str s = Inr a \<Longrightarrow> a = dec s \<and> s \<noteq> [] \<and> list_all is_digit s"
  by (auto simp: py_int_str_def dec_def split: if_splits)

lemma digit_val_range: "is_digit c \<Longrightarrow> 0 \<le> digit_val c \<and> digit_val c \<le> 9"
  by (auto simp: is_digit_def digit_val_def)

lemma digit_val_zero: "is_digit c \<Longrightarrow> (digit_val c = 0) = (c = CHR ''0'')"
  by (auto simp: is_digit_def digit_val_def)

lemma list_all_takeWhile: "list_all P (takeWhile P xs)"
  by (induction xs) auto

lemma takeWhile_digits_append:
  assumes "list_all is_digit ds" "rest = [] \<or> \<not> is_digit (hd rest)"
  shows "takeWhile is_digit (ds @ rest) = ds" "dropWhile is_digit (ds @ rest) = rest"
proof -
  have r: "takeWhile is_digit rest = []" "dropWhile is_digit rest = rest"
    using assms(2) by (cases rest; auto)+
  show "takeWhile is_digit (ds @ rest) = ds" "dropWhile is_digit (ds @ rest) = rest"
    using assms(1) r by (induction ds) auto
qed

lemma stable_groups:
  assumes "with_product stable_tail t = Some (g, rest)"
  shows "\<exists>p major minor. major \<noteq> [] \<and> list_all is_digit major \<and> minor \<noteq> [] \<and>
     list_all is_digit minor \<and>
     (g = [(3, minor), (2, major), (1, p)] \<or>
      (\<exists>patch. patch \<noteq> [] \<and> list_all is_digit patch \<and>
         g = [(4, patch), (3, minor), (2, major), (1, p)]))"
  using assms
  by (auto simp: with_product_def stable_tail_def patch_part_def Let_def list_all_takeWhile
      split: if_splits)

lemma stable_match_groups:
  assumes "re_match stable_re t = Some res"
  shows "\<exists>major minor. major \<noteq> [] \<and> list_all is_digit major \<and> minor \<noteq> [] \<and>
     list_all is_digit minor \<and> group res 2 = Some major \<and> group res 3 = Some minor \<and>
     (group res 4 = None \<or>
      (\<exists>patch. patch \<noteq> [] \<and> list_all is_digit patch \<and> group res 4 = Some patch))"
proof -
  obtain g rest where gr: "with_product stable_tail t = Some (g, rest)" and res: "snd res = g"
    using assms unfolding re_match_first stable_first by (cases "with_product stable_tail t") auto
  from stable_groups [OF gr] show ?thesis
    unfolding group_def res by fastforce
qed

lemma is_digit_zero: "is_digit CHR ''0''"
  by (simp add: is_digit_def)

lemma list_all_pad:
  "list_all is_digit r \<Longrightarrow> list_all is_digit m \<Longrightarrow>
   list_all is_digit ((if b then r @ ''0'' else r) @ m)"
  by (simp add: is_digit_zero)

lemma stable_success:
  assumes "re_match stable_re t = Some res"
  shows "\<exists>n. pg_get_num_version t = Inr (group0 res, n)"
proof -
  obtain major minor where m: "major \<noteq> []" "list_all is_digit major" "minor \<noteq> []"
      "list_all is_digit minor" "group res 2 = Some major" "group res 3 = Some minor"
    and p: "group res 4 = None \<or>
      (\<exists>patch. patch \<noteq> [] \<and> list_all is_digit patch \<and> group res 4 = Some patch)"
    using stable_match_groups [OF assms] by blast
  from p show ?thesis
  proof
    assume "group res 4 = None"
    then show ?thesis
      using m assms
      by (simp add: pg_get_num_version_def py_bind_def group_str_def py_int_str_digits
          list_all_pad is_digit_zero)
  next
    assume "\<exists>patch. patch \<noteq> [] \<and> list_all is_digit patch \<and> group res 4 = Some patch"
    then obtain patch where "patch \<noteq> []" "list_all is_digit patch" "group res 4 = Some patch"
      by blast
    then show ?thesis
      using m assms
      by (simp add: pg_get_num_version_def py_bind_def group_str_def py_int_str_digits
          list_all_pad is_digit_zero)
  qed
qed

lemma dev_groups:
  assumes "with_product dev_tail t = Some (g, rest)"
  shows "\<exists>major. major \<noteq> [] \<and> list_all is_digit major \<and> map_of g 2 = Some major \<and>
     (map_of g 3 = None \<or>
      (\<exists>minor. minor \<noteq> [] \<and> list_all is_digit minor \<and> map_of g 3 = Some minor))"
  using assms
  by (auto simp: with_product_def dev_tail_def suffix_part_def Let_def list_all_takeWhile
      split: if_splits)

lemma dev_success:
  assumes "re_match dev_re t = Some res"
  shows "\<exists>n. pg_get_num_dev_version t = Inr (group0 res, n)"
proof -
  obtain g rest where gr: "with_product dev_tail t = Some (g, rest)" and res: "snd res = g"
    using assms unfolding re_match_first dev_first by (cases "with_product dev_tail t") auto
  obtain major where m: "major \<noteq> []" "list_all is_digit major" "group res 2 = Some major"
    and p: "group res 3 = None \<or>
      (\<exists>minor. minor \<noteq> [] \<and> list_all is_digit minor \<and> group res 3 = Some minor)"
    using dev_groups [OF gr] unfolding group_def res by blast
  from p show ?thesis
  proof
    assume "group res 3 = None"
    then show ?thesis
      using m assms
      by (simp add: pg_get_num_dev_version_def py_bind_def group_str_def py_int_str_digits
          is_digit_zero)
  next
    assume "\<exists>minor. minor \<noteq> [] \<and> list_all is_digit minor \<and> group res 3 = Some minor"
    then obtain minor where "minor \<noteq> []" "list_all is_digit minor" "group res 3 = Some minor"
      by blast
    then show ?thesis
      using m assms
      by (simp add: pg_get_num_dev_version_def py_bind_def group_str_def py_int_str_digits
          list_all_pad is_digit_zero)
  qed
qed

lemma digits_prefix_le:
  assumes "t = p @ s" "list_all is_digit p"
  shows "length p \<le> length (takeWhile is_digit t)"
proof -
  have "takeWhile is_digit (p @ s) = p @ takeWhile is_digit s"
    using assms(2) by (induction p) auto
  then show ?thesis using assms(1) by simp
qed

lemma take_le_takeWhile_digits:
  assumes "n \<le> length (takeWhile is_digit t)"
  shows "list_all is_digit (take n t)"
proof -
  have "take n t = take n (takeWhile is_digit t)"
    using assms by (metis take_length_takeWhile take_take min.absorb1)
  moreover have "list_all is_digit (takeWhile is_digit t)" by (rule list_all_takeWhile)
  ultimately show ?thesis
    by (metis list_all_iff in_set_takeD)
qed

lemma run_Digits_set:
  "snd ` set (re_run Digits t g) = (\<lambda>n. drop n t) ` {n. 1 \<le> n \<and> n \<le> length (takeWhile is_digit t)}"
proof -
  have "{1 ..< Suc (length (takeWhile is_digit t))} = {n. 1 \<le> n \<and> n \<le> length (takeWhile is_digit t)}"
    by auto
  moreover have "snd ` set (re_run Digits t g) =
      (\<lambda>n. drop n t) ` {1 ..< Suc (length (takeWhile is_digit t))}"
    by (simp add: image_image del: upt_Suc)
  ultimately show ?thesis by simp
qed

lemma run_Digits_rests:
  "snd ` set (re_run Digits t g) = {s. \<exists>p. p \<noteq> [] \<and> list_all is_digit p \<and> t = p @ s}"
proof (intro set_eqI iffI)
  fix s
  assume "s \<in> snd ` set (re_run Digits t g)"
  then obtain n where n: "1 \<le> n" "n \<le> length (takeWhile is_digit t)" and s: "s = drop n t"
    unfolding run_Digits_set by blast
  have "n \<le> length t" using n(2) length_takeWhile_le [of is_digit t] by simp
  then have "take n t \<noteq> []" using n(1) by auto
  moreover have "list_all is_digit (take n t)" using n(2) by (rule take_le_takeWhile_digits)
  moreover have "t = take n t @ s" using s by simp
  ultimately show "s \<in> {s. \<exists>p. p \<noteq> [] \<and> list_all is_digit p \<and> t = p @ s}" by blast
next
  fix s
  assume "s \<in> {s. \<exists>p. p \<noteq> [] \<and> list_all is_digit p \<and> t = p @ s}"
  then obtain p where p: "p \<noteq> []" "list_all is_digit p" "t = p @ s" by blast
  have "length p \<le> length (takeWhile is_digit t)" using p(3,2) by (rule digits_prefix_le)
  moreover have "1 \<le> length p" using p(1) by (cases p) auto
  moreover have "s = drop (length p) t" using p(3) by simp
  ultimately show "s \<in> snd ` set (re_run Digits t g)"
    unfolding run_Digits_set by blast
qed

lemma take_eq_iff_prefix: "(take (length s) t = s) = (\<exists>r. t = s @ r)"
  by (metis append_eq_conv_conj append_take_drop_id)

lemma run_rests: "snd ` set (re_run r t g) = {s. \<exists>p\<in>lang r. t = p @ s}"
proof (induction r arbitrary: t g)
  case (Lit x)
  show ?case
  proof (cases "take (length x) t = x")
    case True
    then have "t = x @ drop (length x) t" by (metis append_take_drop_id)
    then show ?thesis using True by auto
  next
    case False
    then have "\<And>r. t \<noteq> x @ r" using take_eq_iff_prefix by blast
    then show ?thesis using False by auto
  qed
next
  case Digits
  show ?case unfolding run_Digits_rests by auto
next
  case (Alt r1 r2)
  show ?case by (auto simp: image_Un Alt.IH)
next
  case (Seq r1 r2)
  have "snd ` set (re_run (Seq r1 r2) t g) =
      (\<Union>x\<in>set (re_run r1 t g). snd ` set (re_run r2 (snd x) (fst x)))"
    by (auto simp: case_prod_beta image_iff)
  also have "\<dots> = (\<Union>x\<in>set (re_run r1 t g). {s. \<exists>q\<in>lang r2. snd x = q @ s})"
    by (simp only: Seq.IH(2))
  also have "\<dots> = (\<Union>t'\<in>snd ` set (re_run r1 t g). {s. \<exists>q\<in>lang r2. t' = q @ s})"
    by auto
  also have "\<dots> = (\<Union>t'\<in>{s. \<exists>p\<in>lang r1. t = p @ s}. {s. \<exists>q\<in>lang r2. t' = q @ s})"
    by (simp only: Seq.IH(1))
  also have "\<dots> = {s. \<exists>p\<in>lang (Seq r1 r2). t = p @ s}"
    by fastforce
  finally show ?case .
next
  case (Opt r)
  show ?case by (auto simp: Opt.IH)
next
  case (Group n r)
  have "snd ` set (re_run (Group n r) t g) = snd ` set (re_run r t g)"
    by (simp add: image_image case_prod_beta)
  then show ?case by (simp add: Group.IH)
qed

lemma re_match_iff_matches: "(re_match r t \<noteq> None) = matches_pattern r t"
proof -
  have "(re_match r t \<noteq> None) = (snd ` set (re_run r t []) \<noteq> {})"
    by (auto simp: re_match_def split: list.splits)
  also have "\<dots> = matches_pattern r t"
    unfolding run_rests matches_pattern_def by blast
  finally show ?thesis .
qed

subsection \<open>Version resolution\<close>

text \<open>
  C6. Version resolution returns a short string and a numeric code for every text that
  matches the stable-release pattern or the development pattern, and raises the
  exception \<^verbatim>\<open>Undefined PostgreSQL version: ...\<close> for every text that matches neither.
\<close>

theorem pg_get_num_version_total_on_patterns:
  "(matches_pattern stable_re t \<or> matches_pattern dev_re t \<longrightarrow>
      (\<exists>v n. pg_get_num_version t = Inr (v, n)))
   \<and> (\<not> matches_pattern stable_re t \<and> \<not> matches_pattern dev_re t \<longrightarrow>
      pg_get_num_version t = Inl (Exception (''Undefined PostgreSQL version: '' @ t)))"
proof (cases "re_match stable_re t")
  case (Some res)
  then have "matches_pattern stable_re t" using re_match_iff_matches [of stable_re t] by simp
  then show ?thesis using stable_success [OF Some] by blast
next
  case None
  then have ns: "\<not> matches_pattern stable_re t"
    using re_match_iff_matches [of stable_re t] by simp
  have eq: "pg_get_num_version t = pg_get_num_dev_version t"
    using None by (simp add: pg_get_num_version_def)
  show ?thesis
  proof (cases "re_match dev_re t")
    case (Some res)
    then have "matches_pattern dev_re t" using re_match_iff_matches [of dev_re t] by simp
    then show ?thesis using dev_success [OF Some] eq by auto
  next
    case dn: None
    then have "\<not> matches_pattern dev_re t"
      using re_match_iff_matches [of dev_re t] by simp
    moreover have "pg_get_num_version t = Inl (Exception (''Undefined PostgreSQL version: '' @ t))"
      using dn eq by (simp add: pg_get_num_dev_version_def)
    ultimately show ?thesis using ns by simp
  qed
qed

theorem pg_get_num_version_total_on_patterns_witness:
  "matches_pattern dev_re ''PostgreSQL 14devel''
   \<and> (\<exists>v n. pg_get_num_version ''PostgreSQL 14devel'' = Inr (v, n))
   \<and> \<not> matches_pattern stable_re ''MySQL 8.0'' \<and> \<not> matches_pattern dev_re ''MySQL 8.0''
   \<and> pg_get_num_version ''MySQL 8.0'' = Inl (Exception ''Undefined PostgreSQL version: MySQL 8.0'')"
proof -
  have a: "re_match dev_re ''PostgreSQL 14devel'' \<noteq> None" by code_simp
  have b: "re_match stable_re ''MySQL 8.0'' = None" by code_simp
  have c: "re_match dev_re ''MySQL 8.0'' = None" by code_simp
  have m: "matches_pattern dev_re ''PostgreSQL 14devel''"
    using a re_match_iff_matches [of dev_re "''PostgreSQL 14devel''"] by simp
  have n1: "\<not> matches_pattern stable_re ''MySQL 8.0''"
    using b re_match_iff_matches [of stable_re "''MySQL 8.0''"] by simp
  have n2: "\<not> matches_pattern dev_re ''MySQL 8.0''"
    using c re_match_iff_matches [of dev_re "''MySQL 8.0''"] by simp
  show ?thesis
    using m n1 n2 pg_get_num_version_total_on_patterns [of "''PostgreSQL 14devel''"]
      pg_get_num_version_total_on_patterns [of "''MySQL 8.0''"]
    by simp
qed

subsection \<open>The numeric encoding\<close>

lemma digit_val_0: "digit_val CHR ''0'' = 0"
  by (simp add: digit_val_def)

lemma pad_field:
  assumes "two_digit_field m" "py_int_str m = Inr b"
  shows "\<exists>p. length p = 2 \<and> list_all is_digit p \<and> dec p = b \<and>
     (if b < 10 then r @ ''0'' else r) @ m = r @ p"
proof -
  have b: "b = dec m" using assms(2) py_int_str_eq_dec by blast
  from assms(1) have "length m = 1 \<or> (length m = 2 \<and> hd m \<noteq> CHR ''0'')"
    by (simp add: two_digit_field_def)
  then show ?thesis
  proof
    assume "length m = 1"
    then obtain c where m: "m = [c]" by (cases m) auto
    then have c: "is_digit c" using assms(1) by (simp add: two_digit_field_def)
    have "dec m = digit_val c" by (simp add: m dec_def)
    then have "b < 10" using digit_val_range [OF c] b by simp
    moreover have "dec (''0'' @ m) = b"
      by (simp add: dec_def m digit_val_0 b)
    moreover have "list_all is_digit (''0'' @ m)" using c by (simp add: m is_digit_zero)
    ultimately show ?thesis
      by (intro exI [of _ "''0'' @ m"]) (simp add: m)
  next
    assume a: "length m = 2 \<and> hd m \<noteq> CHR ''0''"
    then obtain c d where m: "m = [c, d]"
      by (cases m; cases "tl m") auto
    then have cd: "is_digit c" "is_digit d" "c \<noteq> CHR ''0''"
      using assms(1) a by (simp_all add: two_digit_field_def)
    have "digit_val c \<noteq> 0" using digit_val_zero [OF cd(1)] cd(3) by simp
    then have "1 \<le> digit_val c" using digit_val_range [OF cd(1)] by simp
    moreover have "dec m = 10 * digit_val c + digit_val d" by (simp add: m dec_def)
    ultimately have "\<not> b < 10" using digit_val_range [OF cd(2)] b by simp
    then show ?thesis
      using assms(1) b a by (intro exI [of _ m]) (simp add: two_digit_field_def)
  qed
qed

lemma dec_00: "dec ''00'' = 0"
  by (simp add: dec_def digit_val_0)

lemma encode_fields:
  assumes "py_int_str major = Inr a" "length p = 2" "list_all is_digit p"
    "length q = 2" "list_all is_digit q"
  shows "py_int_str (major @ p @ q) = Inr (a * 10000 + dec p * 100 + dec q)"
proof -
  have m: "a = dec major" "major \<noteq> []" "list_all is_digit major"
    using assms(1) py_int_str_eq_dec by blast+
  have "dec (major @ p @ q) = (dec major * 10 ^ length p + dec p) * 10 ^ length q + dec q"
    using dec_append [of "major @ p" q] dec_append [of major p] by simp
  then have "dec (major @ p @ q) = a * 10000 + dec p * 100 + dec q"
    using assms(2,4) m(1) by (simp add: algebra_simps)
  moreover have "py_int_str (major @ p @ q) = Inr (dec (major @ p @ q))"
    using m assms(3,5) by (intro py_int_str_digits) simp_all
  ultimately show ?thesis by simp
qed

lemma take_all_but_rest: "take (length (xs @ ys) - length ys) (xs @ ys) = xs"
  by simp

lemma patch_part_patch:
  assumes "patch \<noteq> []" "list_all is_digit patch" "no_digit_ahead rest"
  shows "patch_part (''.'' @ patch @ rest) g = ((4, patch) # g, rest)"
  using assms takeWhile_digits_append [of patch rest]
  by (simp add: patch_part_def no_digit_ahead_def)

lemma patch_part_none:
  assumes "no_patch_ahead rest"
  shows "patch_part rest g = (g, rest)"
proof (cases "take 1 rest = ''.''")
  case True
  then have "drop 1 rest = [] \<or> \<not> is_digit (hd (drop 1 rest))"
    using assms by (auto simp: no_patch_ahead_def)
  then have "takeWhile is_digit (drop 1 rest) = []"
    by (cases "drop 1 rest") auto
  then show ?thesis by (simp add: patch_part_def)
next
  case False
  then show ?thesis by (simp add: patch_part_def)
qed

lemma not_digit_dot: "\<not> is_digit CHR ''.''"
  by (simp add: is_digit_def)

lemma stable_tail_structured:
  assumes "major \<noteq> []" "list_all is_digit major" "minor \<noteq> []" "list_all is_digit minor"
    "no_digit_ahead rest"
  shows "stable_tail (major @ ''.'' @ minor @ rest) g =
     Some (patch_part rest ((3, minor) # (2, major) # g))"
proof -
  have a: "takeWhile is_digit (major @ ''.'' @ minor @ rest) = major"
    "dropWhile is_digit (major @ ''.'' @ minor @ rest) = ''.'' @ minor @ rest"
    using takeWhile_digits_append [of major "''.'' @ minor @ rest"] assms(2)
    by (simp_all add: not_digit_dot)
  have b: "takeWhile is_digit (minor @ rest) = minor" "dropWhile is_digit (minor @ rest) = rest"
    using takeWhile_digits_append [of minor rest] assms(4,5)
    by (simp_all add: no_digit_ahead_def)
  show ?thesis
    unfolding stable_tail_def a Let_def using assms(1,3) b by simp
qed

lemma with_product_structured:
  assumes "product = ''PostgreSQL'' \<or> product = ''EnterpriseDB''"
  shows "with_product k (product @ '' '' @ x) = k x [(1, product)]"
  using assms by (auto simp: with_product_def)

lemma stable_match_patch:
  assumes "product = ''PostgreSQL'' \<or> product = ''EnterpriseDB''"
    "major \<noteq> []" "list_all is_digit major" "minor \<noteq> []" "list_all is_digit minor"
    "patch \<noteq> []" "list_all is_digit patch" "no_digit_ahead rest"
  shows "re_match stable_re (product @ '' '' @ major @ ''.'' @ minor @ ''.'' @ patch @ rest) =
     Some (product @ '' '' @ major @ ''.'' @ minor @ ''.'' @ patch,
           [(4, patch), (3, minor), (2, major), (1, product)])"
proof -
  have nd: "no_digit_ahead (''.'' @ patch @ rest)"
    by (simp add: no_digit_ahead_def not_digit_dot)
  have "with_product stable_tail (product @ '' '' @ major @ ''.'' @ minor @ ''.'' @ patch @ rest) =
      Some ([(4, patch), (3, minor), (2, major), (1, product)], rest)"
    unfolding with_product_structured [OF assms(1)]
      stable_tail_structured [OF assms(2-5) nd]
      patch_part_patch [OF assms(6-8)] ..
  moreover have "take (length (product @ '' '' @ major @ ''.'' @ minor @ ''.'' @ patch @ rest) - length rest)
        (product @ '' '' @ major @ ''.'' @ minor @ ''.'' @ patch @ rest) =
      product @ '' '' @ major @ ''.'' @ minor @ ''.'' @ patch"
    using take_all_but_rest [of "product @ '' '' @ major @ ''.'' @ minor @ ''.'' @ patch" rest]
    by simp
  ultimately show ?thesis
    unfolding re_match_first stable_first by simp
qed

lemma stable_match_no_patch:
  assumes "product = ''PostgreSQL'' \<or> product = ''EnterpriseDB''"
    "major \<noteq> []" "list_all is_digit major" "minor \<noteq> []" "list_all is_digit minor"
    "no_patch_ahead rest"
  shows "re_match stable_re (product @ '' '' @ major @ ''.'' @ minor @ rest) =
     Some (product @ '' '' @ major @ ''.'' @ minor, [(3, minor), (2, major), (1, product)])"
proof -
  have nd: "no_digit_ahead rest" using assms(6) by (simp add: no_patch_ahead_def)
  have "with_product stable_tail (product @ '' '' @ major @ ''.'' @ minor @ rest) =
      Some ([(3, minor), (2, major), (1, product)], rest)"
    unfolding with_product_structured [OF assms(1)]
      stable_tail_structured [OF assms(2-5) nd]
      patch_part_none [OF assms(6)] ..
  moreover have "take (length (product @ '' '' @ major @ ''.'' @ minor @ rest) - length rest)
        (product @ '' '' @ major @ ''.'' @ minor @ rest) =
      product @ '' '' @ major @ ''.'' @ minor"
    using take_all_but_rest [of "product @ '' '' @ major @ ''.'' @ minor" rest]
    by simp
  ultimately show ?thesis
    unfolding re_match_first stable_first by simp
qed

lemma version_patch:
  assumes "product = ''PostgreSQL'' \<or> product = ''EnterpriseDB''"
    "py_int_str major = Inr a"
    "two_digit_field minor" "py_int_str minor = Inr b"
    "two_digit_field patch" "py_int_str patch = Inr c"
    "no_digit_ahead rest"
  shows "pg_get_num_version (product @ '' '' @ major @ ''.'' @ minor @ ''.'' @ patch @ rest) =
     Inr (product @ '' '' @ major @ ''.'' @ minor @ ''.'' @ patch, a * 10000 + b * 100 + c)"
proof -
  have mj: "major \<noteq> []" "list_all is_digit major"
    using assms(2) py_int_str_eq_dec by blast+
  have mi: "minor \<noteq> []" "list_all is_digit minor"
    using assms(4) py_int_str_eq_dec by blast+
  have pa: "patch \<noteq> []" "list_all is_digit patch"
    using assms(6) py_int_str_eq_dec by blast+
  obtain p where p: "length p = 2" "list_all is_digit p" "dec p = b"
      "(if b < 10 then major @ ''0'' else major) @ minor = major @ p"
    using pad_field [OF assms(3,4), of major] by blast
  obtain q where q: "length q = 2" "list_all is_digit q" "dec q = c"
      "(if c < 10 then (major @ p) @ ''0'' else major @ p) @ patch = (major @ p) @ q"
    using pad_field [OF assms(5,6), of "major @ p"] by blast
  have enc: "py_int_str ((major @ p) @ q) = Inr (a * 10000 + b * 100 + c)"
    using encode_fields [OF assms(2) p(1,2) q(1,2)] p(3) q(3) by simp
  have encT: "c < 10 \<Longrightarrow>
      py_int_str (((major @ p) @ ''0'') @ patch) = Inr (a * 10000 + b * 100 + c)"
    using q(4) enc by simp
  have encF: "\<not> c < 10 \<Longrightarrow>
      py_int_str ((major @ p) @ patch) = Inr (a * 10000 + b * 100 + c)"
    using q(4) enc by simp
  show ?thesis
    unfolding pg_get_num_version_def
      stable_match_patch [OF assms(1) mj mi pa assms(7)]
    by (simp add: py_bind_def group_str_def group_def group0_def assms(4,6) p(4) encT encF
        del: append_assoc)
qed

lemma version_no_patch:
  assumes "product = ''PostgreSQL'' \<or> product = ''EnterpriseDB''"
    "py_int_str major = Inr a"
    "two_digit_field minor" "py_int_str minor = Inr b"
    "no_patch_ahead rest"
  shows "pg_get_num_version (product @ '' '' @ major @ ''.'' @ minor @ rest) =
     Inr (product @ '' '' @ major @ ''.'' @ minor, a * 10000 + b * 100)"
proof -
  have mj: "major \<noteq> []" "list_all is_digit major"
    using assms(2) py_int_str_eq_dec by blast+
  have mi: "minor \<noteq> []" "list_all is_digit minor"
    using assms(4) py_int_str_eq_dec by blast+
  obtain p where p: "length p = 2" "list_all is_digit p" "dec p = b"
      "(if b < 10 then major @ ''0'' else major) @ minor = major @ p"
    using pad_field [OF assms(3,4), of major] by blast
  have enc: "py_int_str ((major @ p) @ ''00'') = Inr (a * 10000 + b * 100)"
    using encode_fields [OF assms(2) p(1,2), of "''00''"] p(3)
    by (simp add: dec_00 is_digit_zero)
  show ?thesis
    unfolding pg_get_num_version_def
      stable_match_no_patch [OF assms(1) mj mi assms(5)]
    by (simp add: py_bind_def group_str_def group_def group0_def assms(4) p(4) enc
        del: append_assoc)
qed

lemma dev_suffix_cases:
  assumes "dev_suffix s rest"
  obtains "s = ''devel''"
  | ds where "s = ''beta'' @ ds" "ds \<noteq> []" "list_all is_digit ds" "no_digit_ahead rest"
  | ds where "s = ''rc'' @ ds" "ds \<noteq> []" "list_all is_digit ds" "no_digit_ahead rest"
proof -
  from assms consider "s = ''devel''"
    | "take 4 s = ''beta''" "drop 4 s \<noteq> []" "list_all is_digit (drop 4 s)" "no_digit_ahead rest"
    | "take 2 s = ''rc''" "drop 2 s \<noteq> []" "list_all is_digit (drop 2 s)" "no_digit_ahead rest"
    unfolding dev_suffix_def by blast
  then show ?thesis
  proof cases
    case 1
    then show ?thesis by (rule that(1))
  next
    case 2
    have "s = take 4 s @ drop 4 s" by simp
    then have "s = ''beta'' @ drop 4 s" using 2(1) by metis
    then show ?thesis using 2(2-4) by (rule that(2))
  next
    case 3
    have "s = take 2 s @ drop 2 s" by simp
    then have "s = ''rc'' @ drop 2 s" using 3(1) by metis
    then show ?thesis using 3(2-4) by (rule that(3))
  qed
qed

lemma suffix_part_structured:
  assumes "dev_suffix s rest"
  shows "suffix_part (s @ rest) g = Some ((4, s) # g, rest)"
  using assms
proof (cases rule: dev_suffix_cases)
  case 1
  then show ?thesis by (simp add: suffix_part_def)
next
  case (2 ds)
  then show ?thesis
    using takeWhile_digits_append [of ds rest]
    by (simp add: suffix_part_def no_digit_ahead_def)
next
  case (3 ds)
  then show ?thesis
    using takeWhile_digits_append [of ds rest]
    by (simp add: suffix_part_def no_digit_ahead_def)
qed

lemma dev_suffix_head:
  assumes "dev_suffix s rest"
  shows "no_digit_ahead (s @ rest)" "take 1 (s @ rest) \<noteq> ''.''"
  using assms
  by (cases rule: dev_suffix_cases; simp add: no_digit_ahead_def is_digit_def)+

lemma dev_tail_minor:
  assumes "major \<noteq> []" "list_all is_digit major" "minor \<noteq> []" "list_all is_digit minor"
    "dev_suffix s rest"
  shows "dev_tail (major @ ''.'' @ minor @ s @ rest) g =
     Some ((4, s) # (3, minor) # (2, major) # g, rest)"
proof -
  have a: "takeWhile is_digit (major @ ''.'' @ minor @ s @ rest) = major"
    "dropWhile is_digit (major @ ''.'' @ minor @ s @ rest) = ''.'' @ minor @ s @ rest"
    using takeWhile_digits_append [of major "''.'' @ minor @ s @ rest"] assms(2)
    by (simp_all add: not_digit_dot)
  have b: "takeWhile is_digit (minor @ s @ rest) = minor"
    "dropWhile is_digit (minor @ s @ rest) = s @ rest"
    using takeWhile_digits_append [of minor "s @ rest"] assms(4) dev_suffix_head(1) [OF assms(5)]
    by (simp_all add: no_digit_ahead_def)
  show ?thesis
    unfolding dev_tail_def a Let_def
    using assms(1,3) b suffix_part_structured [OF assms(5)] by simp
qed

lemma dev_tail_no_minor:
  assumes "major \<noteq> []" "list_all is_digit major" "dev_suffix s rest"
  shows "dev_tail (major @ s @ rest) g = Some ((4, s) # (2, major) # g, rest)"
proof -
  have a: "takeWhile is_digit (major @ s @ rest) = major"
    "dropWhile is_digit (major @ s @ rest) = s @ rest"
    using takeWhile_digits_append [of major "s @ rest"] assms(2) dev_suffix_head(1) [OF assms(3)]
    by (simp_all add: no_digit_ahead_def)
  show ?thesis
    unfolding dev_tail_def a Let_def
    using assms(1) dev_suffix_head(2) [OF assms(3)] suffix_part_structured [OF assms(3)]
    by simp
qed

lemma stable_tail_no_minor:
  assumes "list_all is_digit major" "dev_suffix s rest"
  shows "stable_tail (major @ s @ rest) g = None"
proof -
  have a: "dropWhile is_digit (major @ s @ rest) = s @ rest"
    using takeWhile_digits_append [of major "s @ rest"] assms(1) dev_suffix_head(1) [OF assms(2)]
    by (simp_all add: no_digit_ahead_def)
  show ?thesis
    unfolding stable_tail_def a Let_def using dev_suffix_head(2) [OF assms(2)] by simp
qed

lemma dev_match_minor:
  assumes "product = ''PostgreSQL'' \<or> product = ''EnterpriseDB''"
    "major \<noteq> []" "list_all is_digit major" "minor \<noteq> []" "list_all is_digit minor"
    "dev_suffix s rest"
  shows "re_match dev_re (product @ '' '' @ major @ ''.'' @ minor @ s @ rest) =
     Some (product @ '' '' @ major @ ''.'' @ minor @ s,
           [(4, s), (3, minor), (2, major), (1, product)])"
proof -
  have "with_product dev_tail (product @ '' '' @ major @ ''.'' @ minor @ s @ rest) =
      Some ([(4, s), (3, minor), (2, major), (1, product)], rest)"
    unfolding with_product_structured [OF assms(1)] dev_tail_minor [OF assms(2-6)] ..
  moreover have "take (length (product @ '' '' @ major @ ''.'' @ minor @ s @ rest) - length rest)
        (product @ '' '' @ major @ ''.'' @ minor @ s @ rest) =
      product @ '' '' @ major @ ''.'' @ minor @ s"
    using take_all_but_rest [of "product @ '' '' @ major @ ''.'' @ minor @ s" rest] by simp
  ultimately show ?thesis
    unfolding re_match_first dev_first by simp
qed

lemma dev_match_no_minor:
  assumes "product = ''PostgreSQL'' \<or> product = ''EnterpriseDB''"
    "major \<noteq> []" "list_all is_digit major" "dev_suffix s rest"
  shows "re_match dev_re (product @ '' '' @ major @ s @ rest) =
     Some (product @ '' '' @ major @ s, [(4, s), (2, major), (1, product)])"
proof -
  have "with_product dev_tail (product @ '' '' @ major @ s @ rest) =
      Some ([(4, s), (2, major), (1, product)], rest)"
    unfolding with_product_structured [OF assms(1)] dev_tail_no_minor [OF assms(2-4)] ..
  moreover have "take (length (product @ '' '' @ major @ s @ rest) - length rest)
        (product @ '' '' @ major @ s @ rest) = product @ '' '' @ major @ s"
    using take_all_but_rest [of "product @ '' '' @ major @ s" rest] by simp
  ultimately show ?thesis
    unfolding re_match_first dev_first by simp
qed

lemma stable_no_match_dev:
  assumes "product = ''PostgreSQL'' \<or> product = ''EnterpriseDB''"
    "list_all is_digit major" "dev_suffix s rest"
  shows "re_match stable_re (product @ '' '' @ major @ s @ rest) = None"
  unfolding re_match_first stable_first with_product_structured [OF assms(1)]
    stable_tail_no_minor [OF assms(2,3)] by simp

lemma dev_version_minor:
  assumes "product = ''PostgreSQL'' \<or> product = ''EnterpriseDB''"
    "py_int_str major = Inr a" "two_digit_field minor" "py_int_str minor = Inr b"
    "dev_suffix s rest"
  shows "pg_get_num_dev_version (product @ '' '' @ major @ ''.'' @ minor @ s @ rest) =
     Inr (product @ '' '' @ major @ ''.'' @ minor @ s, a * 10000 + b * 100)"
proof -
  have mj: "major \<noteq> []" "list_all is_digit major"
    using assms(2) py_int_str_eq_dec by blast+
  have mi: "minor \<noteq> []" "list_all is_digit minor"
    using assms(4) py_int_str_eq_dec by blast+
  obtain p where p: "length p = 2" "list_all is_digit p" "dec p = b"
      "(if b < 10 then major @ ''0'' else major) @ minor = major @ p"
    using pad_field [OF assms(3,4), of major] by blast
  have enc: "py_int_str ((major @ p) @ ''00'') = Inr (a * 10000 + b * 100)"
    using encode_fields [OF assms(2) p(1,2), of "''00''"] p(3)
    by (simp add: dec_00 is_digit_zero)
  show ?thesis
    unfolding pg_get_num_dev_version_def dev_match_minor [OF assms(1) mj mi assms(5)]
    by (simp add: py_bind_def group_str_def group_def group0_def assms(4) p(4) enc
        del: append_assoc)
qed

lemma dev_version_no_minor:
  assumes "product = ''PostgreSQL'' \<or> product = ''EnterpriseDB''"
    "py_int_str major = Inr a" "dev_suffix s rest"
  shows "pg_get_num_dev_version (product @ '' '' @ major @ s @ rest) =
     Inr (product @ '' '' @ major @ s, a * 10000)"
proof -
  have mj: "major \<noteq> []" "list_all is_digit major"
    using assms(2) py_int_str_eq_dec by blast+
  have enc: "py_int_str ((major @ ''00'') @ ''00'') = Inr (a * 10000)"
    using encode_fields [OF assms(2), of "''00''" "''00''"]
    by (simp add: dec_00 is_digit_zero)
  show ?thesis
    unfolding pg_get_num_dev_version_def dev_match_no_minor [OF assms(1) mj assms(3)]
    by (simp add: py_bind_def group_str_def group_def group0_def enc del: append_assoc)
qed

lemma version_dev_no_minor:
  assumes "product = ''PostgreSQL'' \<or> product = ''EnterpriseDB''"
    "py_int_str major = Inr a" "dev_suffix s rest"
  shows "pg_get_num_version (product @ '' '' @ major @ s @ rest) =
     Inr (product @ '' '' @ major @ s, a * 10000)"
proof -
  have mj: "list_all is_digit major" using assms(2) py_int_str_eq_dec by blast
  show ?thesis
    unfolding pg_get_num_version_def stable_no_match_dev [OF assms(1) mj assms(3)]
    using dev_version_no_minor [OF assms] by simp
qed

lemma version_examples:
  "pg_get_num_version ''PostgreSQL 11.9'' = Inr (''PostgreSQL 11.9'', 110900)"
  "pg_get_num_version ''EnterpriseDB 11.9 (Debian 11.9-0+deb10u1)'' =
     Inr (''EnterpriseDB 11.9'', 110900)"
  "pg_get_num_version ''PostgreSQL 13.0beta2'' = Inr (''PostgreSQL 13.0'', 130000)"
  "pg_get_num_dev_version ''PostgreSQL 11.9devel0'' = Inr (''PostgreSQL 11.9devel'', 110900)"
  "pg_get_num_version ''PostgreSQL 11.9devel0'' = Inr (''PostgreSQL 11.9'', 110900)"
  "pg_get_num_version ''PostgreSQL 9.100'' = Inr (''PostgreSQL 9.100'', 910000)"
  by code_simp+

text \<open>
  C5, as amended. Where minor and patch are written with at most two digits and no
  leading zero, \<^verbatim>\<open>pg_get_num_version\<close> encodes a text of the stable pattern as
  \<open>major * 10000 + minor * 100 + patch\<close>, with patch 0 when absent or when a pre-release
  suffix follows the minor number, and a text \<^verbatim>\<open><product> <major><suffix>\<close> as
  \<open>major * 10000\<close>; \<^verbatim>\<open>pg_get_num_dev_version\<close> encodes a text of the development pattern
  as \<open>major * 10000 + minor * 100\<close>, minor 0 when absent. The first three examples hold
  for \<^verbatim>\<open>pg_get_num_version\<close>; the fourth holds for \<^verbatim>\<open>pg_get_num_dev_version\<close>, while
  \<^verbatim>\<open>pg_get_num_version\<close> returns \<^verbatim>\<open>('PostgreSQL 11.9', 110900)\<close> there, the stable pattern
  being tried first.
\<close>

theorem pg_get_num_version_encoding:
  assumes "product = ''PostgreSQL'' \<or> product = ''EnterpriseDB''"
    and "py_int_str major = Inr a"
    and "two_digit_field minor" and "py_int_str minor = Inr b"
    and "two_digit_field patch" and "py_int_str patch = Inr c"
    and "no_digit_ahead rest" and "no_patch_ahead rest'" and "dev_suffix s rest''"
  shows
    "pg_get_num_version (product @ '' '' @ major @ ''.'' @ minor @ ''.'' @ patch @ rest) =
       Inr (product @ '' '' @ major @ ''.'' @ minor @ ''.'' @ patch, a * 10000 + b * 100 + c)
     \<and> pg_get_num_version (product @ '' '' @ major @ ''.'' @ minor @ rest') =
       Inr (product @ '' '' @ major @ ''.'' @ minor, a * 10000 + b * 100)
     \<and> pg_get_num_version (product @ '' '' @ major @ s @ rest'') =
       Inr (product @ '' '' @ major @ s, a * 10000)
     \<and> pg_get_num_dev_version (product @ '' '' @ major @ ''.'' @ minor @ s @ rest'') =
       Inr (product @ '' '' @ major @ ''.'' @ minor @ s, a * 10000 + b * 100)
     \<and> pg_get_num_dev_version (product @ '' '' @ major @ s @ rest'') =
       Inr (product @ '' '' @ major @ s, a * 10000)
     \<and> pg_get_num_version ''PostgreSQL 11.9'' = Inr (''PostgreSQL 11.9'', 110900)
     \<and> pg_get_num_version ''EnterpriseDB 11.9 (Debian 11.9-0+deb10u1)'' =
       Inr (''EnterpriseDB 11.9'', 110900)
     \<and> pg_get_num_version ''PostgreSQL 13.0beta2'' = Inr (''PostgreSQL 13.0'', 130000)
     \<and> pg_get_num_dev_version ''PostgreSQL 11.9devel0'' = Inr (''PostgreSQL 11.9devel'', 110900)
     \<and> pg_get_num_version ''PostgreSQL 11.9devel0'' = Inr (''PostgreSQL 11.9'', 110900)"
  using version_patch [OF assms(1-7)] version_no_patch [OF assms(1-4,8)]
    version_dev_no_minor [OF assms(1,2,9)] dev_version_minor [OF assms(1-4,9)]
    dev_version_no_minor [OF assms(1,2,9)] version_examples(1-5)
  by (intro conjI)

theorem pg_get_num_version_encoding_witness:
  "pg_get_num_version ''PostgreSQL 9.6.24 (Debian)'' = Inr (''PostgreSQL 9.6.24'', 90624)
   \<and> pg_get_num_version ''PostgreSQL 9.6beta2'' = Inr (''PostgreSQL 9.6'', 90600)
   \<and> pg_get_num_version ''PostgreSQL 9rc1'' = Inr (''PostgreSQL 9rc1'', 90000)
   \<and> pg_get_num_dev_version ''PostgreSQL 9.6rc1'' = Inr (''PostgreSQL 9.6rc1'', 90600)
   \<and> pg_get_num_dev_version ''PostgreSQL 9rc1'' = Inr (''PostgreSQL 9rc1'', 90000)"
proof -
  have h1: "''PostgreSQL'' = ''PostgreSQL'' \<or> ''PostgreSQL'' = ''EnterpriseDB''" by simp
  have h2: "py_int_str ''9'' = Inr 9" by code_simp
  have h3: "two_digit_field ''6''" by code_simp
  have h4: "py_int_str ''6'' = Inr 6" by code_simp
  have h5: "two_digit_field ''24''" by code_simp
  have h6: "py_int_str ''24'' = Inr 24" by code_simp
  have h7: "no_digit_ahead '' (Debian)''" by code_simp
  have h8: "no_patch_ahead ''beta2''" by code_simp
  have h9: "dev_suffix ''rc1'' []" by code_simp
  show ?thesis
    using pg_get_num_version_encoding [OF h1 h2 h3 h4 h5 h6 h7 h8 h9] by simp
qed

text \<open>
  C5 as stated fails: on \<^verbatim>\<open>PostgreSQL 11.9devel0\<close> version resolution returns the short
  string \<^verbatim>\<open>PostgreSQL 11.9\<close>, and on \<^verbatim>\<open>PostgreSQL 9.100\<close> it returns 910000, not
  \<open>9 * 10000 + 100 * 100\<close>.
\<close>

theorem pg_get_num_version_encoding_counterexample:
  "pg_get_num_version ''PostgreSQL 11.9devel0'' \<noteq> Inr (''PostgreSQL 11.9devel'', 110900)
   \<and> pg_get_num_version ''PostgreSQL 9.100'' \<noteq> Inr (''PostgreSQL 9.100'', 9 * 10000 + 100 * 100 + 0)"
  by (simp add: version_examples(5,6))

subsection \<open>Reconnecting and connecting\<close>

text \<open>
  C2, as amended. When the connection attempt of \<^verbatim>\<open>try_reconnect\<close> raises an
  \<^verbatim>\<open>InterfaceError\<close> or an \<^verbatim>\<open>OperationalError\<close> (a subclass such as \<^verbatim>\<open>InvalidPassword\<close>
  included), the method returns \<^verbatim>\<open>None\<close>; any other exception leaves the method as it
  is; in every case the existing session is unchanged.
\<close>

theorem try_reconnect_absorbs_connection_errors:
  "(\<forall>e. connect (dsn_parameters self) = Inl e \<and> (is_InterfaceError e \<or> is_OperationalError e) \<longrightarrow>
      try_reconnect connect self = (self, Inr None))
   \<and> (\<forall>e. connect (dsn_parameters self) = Inl e \<and> \<not> is_InterfaceError e \<and> \<not> is_OperationalError e \<longrightarrow>
      try_reconnect connect self = (self, Inl e))
   \<and> fst (try_reconnect connect self) = self"
  by (simp add: try_reconnect_def)

theorem try_reconnect_absorbs_connection_errors_witness:
  "try_reconnect (\<lambda>p. Inl (OperationalError ''connection refused'')) (example_session (5, 7, 9, 1)) =
     (example_session (5, 7, 9, 1), Inr None)
   \<and> try_reconnect (\<lambda>p. Inl (InvalidPassword ''password authentication failed'')) (example_session (5, 7, 9, 1)) =
     (example_session (5, 7, 9, 1), Inr None)
   \<and> try_reconnect (\<lambda>p. Inl (TypeError)) (example_session (5, 7, 9, 1)) =
     (example_session (5, 7, 9, 1), Inl TypeError)"
  using try_reconnect_absorbs_connection_errors
      [of "\<lambda>p. Inl (OperationalError ''connection refused'')" "example_session (5, 7, 9, 1)"]
    try_reconnect_absorbs_connection_errors
      [of "\<lambda>p. Inl (InvalidPassword ''password authentication failed'')" "example_session (5, 7, 9, 1)"]
    try_reconnect_absorbs_connection_errors
      [of "\<lambda>p. Inl TypeError" "example_session (5, 7, 9, 1)"]
  by simp

text \<open>
  C2 as stated fails: a connection attempt that raises another psycopg3 error is not
  turned into \<^verbatim>\<open>None\<close>; the exception reaches the caller.
\<close>

theorem try_reconnect_propagates_counterexample:
  "try_reconnect (\<lambda>p. Inl (Error ''invalid connection option'')) (example_session (5, 7, 9, 1)) =
     (example_session (5, 7, 9, 1), Inl (Error ''invalid connection option''))
   \<and> snd (try_reconnect (\<lambda>p. Inl (Error ''invalid connection option'')) (example_session (5, 7, 9, 1)))
       \<noteq> Inr None"
  by (simp add: try_reconnect_def)

text \<open>
  C3, as amended. When the connection attempt succeeds, the session returned holds the
  new connection and the new connection's parameters; its display version, numeric
  version and minimum duration are those of the old session.
\<close>

theorem try_reconnect_keeps_version:
  "connect (dsn_parameters self) = Inr c \<longrightarrow>
     (\<exists>new. try_reconnect connect self = (self, Inr (Some new)) \<and>
        pg_conn new = c \<and> dsn_parameters new = get_parameters c \<and>
        pg_version new = pg_version self \<and> pg_num_version new = pg_num_version self \<and>
        min_duration new = min_duration self)"
  by (simp add: try_reconnect_def)

theorem try_reconnect_keeps_version_witness:
  "\<exists>new. try_reconnect (\<lambda>p. Inr (example_conn (5, 7, 9, 1))) (example_session (1, 2, 3, 4)) =
       (example_session (1, 2, 3, 4), Inr (Some new)) \<and>
     pg_conn new = example_conn (5, 7, 9, 1) \<and> dsn_parameters new = [(''host'', ''db1'')] \<and>
     pg_version new = ''PostgreSQL 11.9'' \<and> pg_num_version new = 110900 \<and> min_duration new = 0"
  using try_reconnect_keeps_version
      [of "\<lambda>p. Inr (example_conn (5, 7, 9, 1))" "example_session (1, 2, 3, 4)" "example_conn (5, 7, 9, 1)"]
  by (simp add: example_session_def example_conn_def)

text \<open>
  C3 as stated fails: the old session was resolved on a server at 11.9 and the new
  connection reports \<^verbatim>\<open>PostgreSQL 13.0\<close>, which resolves to 130000; the session returned
  still says \<^verbatim>\<open>PostgreSQL 11.9\<close> and 110900.
\<close>

theorem try_reconnect_version_counterexample:
  "pg_get_num_version (pg_get_version (example_conn (5, 7, 9, 1))) = Inr (''PostgreSQL 13.0'', 130000)
   \<and> try_reconnect (\<lambda>p. Inr (example_conn (5, 7, 9, 1))) (example_session (1, 2, 3, 4)) =
       (example_session (1, 2, 3, 4),
        Inr (Some \<lparr>pg_conn = example_conn (5, 7, 9, 1), pg_version = ''PostgreSQL 11.9'',
                   pg_num_version = 110900, min_duration = 0,
                   dsn_parameters = [(''host'', ''db1'')]\<rparr>))"
proof
  have "pg_get_num_version ''PostgreSQL 13.0'' = Inr (''PostgreSQL 13.0'', 130000)" by code_simp
  then show "pg_get_num_version (pg_get_version (example_conn (5, 7, 9, 1))) =
      Inr (''PostgreSQL 13.0'', 130000)"
    by (simp add: pg_get_version_def example_conn_def)
  show "try_reconnect (\<lambda>p. Inr (example_conn (5, 7, 9, 1))) (example_session (1, 2, 3, 4)) =
       (example_session (1, 2, 3, 4),
        Inr (Some \<lparr>pg_conn = example_conn (5, 7, 9, 1), pg_version = ''PostgreSQL 11.9'',
                   pg_num_version = 110900, min_duration = 0,
                   dsn_parameters = [(''host'', ''db1'')]\<rparr>))"
    by (simp add: try_reconnect_def example_session_def example_conn_def)
qed

text \<open>
  C8, as amended. The wrapper calls \<^verbatim>\<open>Data.pg_connect\<close> once and, only when that call fails
  with \<^verbatim>\<open>InvalidPassword\<close>, prompts once and calls it once more with the password given.
  Any other \<^verbatim>\<open>OperationalError\<close> of the first call, and any \<^verbatim>\<open>OperationalError\<close> of the
  second (a second \<^verbatim>\<open>InvalidPassword\<close> among them), ends the wrapper at once: with
  \<^verbatim>\<open>exit_on_failed\<close> by \<^verbatim>\<open>SystemExit\<close> carrying \<^verbatim>\<open>pg_activity: FATAL:\<close> and \<open>clean_str\<close> of the
  error text without \<^verbatim>\<open>FATAL:\<close>, without it by the exception
  \<^verbatim>\<open>Could not connect to PostgreSQL\<close>. An exception that is not an \<^verbatim>\<open>OperationalError\<close>
  passes through unchanged.
\<close>

theorem pg_connect_retry_policy:
  "(\<forall>d. connect 0 password = Inr d \<longrightarrow>
      pg_connect connect getpass clean_str password exit_on_failed = ([Connect password], Inr d))
   \<and> (\<forall>e. connect 0 password = Inl e \<and> \<not> is_OperationalError e \<longrightarrow>
      pg_connect connect getpass clean_str password exit_on_failed = ([Connect password], Inl e))
   \<and> (\<forall>e. connect 0 password = Inl e \<and> is_OperationalError e \<and> \<not> is_InvalidPassword e \<longrightarrow>
      pg_connect connect getpass clean_str password exit_on_failed =
        ([Connect password], Inl (connect_failure clean_str exit_on_failed e)))
   \<and> (\<forall>e. connect 0 password = Inl e \<and> is_InvalidPassword e \<longrightarrow>
      pg_connect connect getpass clean_str password exit_on_failed =
        ([Connect password, Getpass, Connect (Some getpass)],
         case connect 1 (Some getpass) of
           Inr d \<Rightarrow> Inr d
         | Inl e' \<Rightarrow> if is_OperationalError e' then Inl (connect_failure clean_str exit_on_failed e')
                     else Inl e'))"
proof -
  have ip: "\<And>e. is_InvalidPassword e \<Longrightarrow> is_OperationalError e"
    by (case_tac e) simp_all
  show ?thesis
    by (auto simp: pg_connect_def connect_failure_def ip split: sum.splits)
qed

theorem pg_connect_retry_policy_witness:
  "pg_connect (\<lambda>n pw. if n = 0 then Inl (InvalidPassword ''FATAL:  password authentication failed'')
                       else Inr (example_session (1, 2, 3, 4)))
      ''secret'' (\<lambda>s. s) None True =
     ([Connect None, Getpass, Connect (Some ''secret'')], Inr (example_session (1, 2, 3, 4)))
   \<and> pg_connect (\<lambda>n pw. Inl (InvalidPassword ''FATAL:  password authentication failed'')
                    :: py_exception + Data)
      ''secret'' (\<lambda>s. s) None True =
     ([Connect None, Getpass, Connect (Some ''secret'')],
      Inl (SystemExit ''pg_activity: FATAL:   password authentication failed''))
   \<and> pg_connect (\<lambda>n pw. Inl (OperationalError ''FATAL:  the database system is starting up'')
                    :: py_exception + Data)
      ''secret'' (\<lambda>s. s) None True =
     ([Connect None],
      Inl (SystemExit ''pg_activity: FATAL:   the database system is starting up''))
   \<and> pg_connect (\<lambda>n pw. Inr (example_session (1, 2, 3, 4))) ''secret'' (\<lambda>s. s) None True =
     ([Connect None], Inr (example_session (1, 2, 3, 4)))"
proof -
  have r1: "replace_str ''FATAL:'' [] ''FATAL:  password authentication failed'' =
      ''  password authentication failed''" by code_simp
  have r2: "replace_str ''FATAL:'' [] ''FATAL:  the database system is starting up'' =
      ''  the database system is starting up''" by code_simp
  show ?thesis
    using
      pg_connect_retry_policy
        [of "\<lambda>n pw. if n = 0 then Inl (InvalidPassword ''FATAL:  password authentication failed'')
                     else Inr (example_session (1, 2, 3, 4))" None "''secret''" "\<lambda>s. s" True]
      pg_connect_retry_policy
        [of "\<lambda>n pw. Inl (InvalidPassword ''FATAL:  password authentication failed'')
               :: py_exception + Data" None "''secret''" "\<lambda>s. s" True]
      pg_connect_retry_policy
        [of "\<lambda>n pw. Inl (OperationalError ''FATAL:  the database system is starting up'')
               :: py_exception + Data" None "''secret''" "\<lambda>s. s" True]
      pg_connect_retry_policy
        [of "\<lambda>n pw. Inr (example_session (1, 2, 3, 4))" None "''secret''" "\<lambda>s. s" True]
    by (simp add: connect_failure_def r1 r2)
qed

text \<open>
  C8 as stated fails: with \<^verbatim>\<open>exit_on_failed\<close> unset an operational failure surfaces as
  \<^verbatim>\<open>Could not connect to PostgreSQL\<close>, without the server's text; and a failure that is
  not an \<^verbatim>\<open>OperationalError\<close> surfaces as it is, control characters included.
\<close>

theorem pg_connect_other_failure_counterexample:
  "pg_connect (\<lambda>n pw. Inl (OperationalError ''FATAL:  the database system is starting up'')
                 :: py_exception + Data)
      ''secret'' (\<lambda>s. s) None False =
     ([Connect None], Inl (Exception ''Could not connect to PostgreSQL''))
   \<and> pg_connect (\<lambda>n pw. Inl (InterfaceError ''connection\<newline>pointer is NULL'')
                    :: py_exception + Data)
      ''secret'' (\<lambda>s. s) None True =
     ([Connect None], Inl (InterfaceError ''connection\<newline>pointer is NULL''))"
  by (simp add: pg_connect_def)

end
